theory Spec2Isabelle
  imports Complex_Main "HOL-Library.Sublist"
begin

section \<open>Python strings\<close>

text \<open>
  A Python \<open>str\<close> is modelled as a \<open>string\<close>, one \<open>char\<close> for each code point; the
  model covers text whose code points are ASCII. \<open>lower\<close> is \<open>str.lower\<close>, \<open>strip\<close> is
  \<open>str.strip\<close> with no argument (the ASCII white space of \<open>str.isspace\<close>: tab, line
  feed, vertical tab, form feed, carriage return, the four separators 28 to 31 and the
  space), \<open>startswith\<close> and \<open>endswith\<close> are the methods of those names, \<open>contains sub s\<close>
  is \<open>sub in s\<close> and \<open>py_split s sep\<close> is \<open>s.split(sep)\<close>.
\<close>

definition lower_char :: "char \<Rightarrow> char" where
  "lower_char c =
     (let n = (of_char c :: nat) in if 65 \<le> n \<and> n \<le> 90 then char_of (n + 32) else c)"

definition lower :: "string \<Rightarrow> string" where
  "lower s = map lower_char s"

definition is_space :: "char \<Rightarrow> bool" where
  "is_space c = (let n = (of_char c :: nat) in (9 \<le> n \<and> n \<le> 13) \<or> (28 \<le> n \<and> n \<le> 32))"

definition strip :: "string \<Rightarrow> string" where
  "strip s = rev (dropWhile is_space (rev (dropWhile is_space s)))"

definition startswith :: "string \<Rightarrow> string \<Rightarrow> bool" where
  "startswith s p = (take (length p) s = p)"

definition endswith :: "string \<Rightarrow> string \<Rightarrow> bool" where
  "endswith s p = (length p \<le> length s \<and> drop (length s - length p) s = p)"

fun contains :: "string \<Rightarrow> string \<Rightarrow> bool" where
  "contains sub [] = (sub = [])"
| "contains sub (c # cs) = (startswith (c # cs) sub \<or> contains sub cs)"

datatype error = ValueError

text \<open>
  \<open>split_from sep acc s\<close> scans \<open>s\<close> from the left, \<open>acc\<close> holding the current piece
  reversed; at an occurrence of the separator the piece is closed and the scan goes on
  behind the occurrence. \<open>str.split\<close> raises \<open>ValueError\<close> for the empty separator.
\<close>

function split_from :: "string \<Rightarrow> string \<Rightarrow> string \<Rightarrow> string list" where
  "split_from sep acc [] = [rev acc]"
| "split_from sep acc (c # cs) =
     (if sep \<noteq> [] \<and> startswith (c # cs) sep
      then rev acc # split_from sep [] (drop (length sep) (c # cs))
      else split_from sep (c # acc) cs)"
  by pat_completeness auto
termination
  by (relation "measure (\<lambda>(sep, acc, s). length s)") auto

definition py_split :: "string \<Rightarrow> string \<Rightarrow> error + string list" where
  "py_split s sep = (if sep = [] then Inl ValueError else Inr (split_from sep [] s))"

section \<open>The task store (todo.py)\<close>

text \<open>
  \<open>todo.json\<close> holds a list of \<open>{"task": ..., "done": ...}\<close> entries. A missing or
  malformed file reads as the empty list (\<open>load_todos\<close> returns \<open>[]\<close> for both), so the
  file is its list. \<open>writable\<close> says whether opening the file for writing succeeds; when
  it does not, \<open>save_todos\<close> catches the \<open>PermissionError\<close>, prints a message and leaves
  the file as it was.
\<close>

record todo =
  task :: string
  "done" :: bool

record todo_file =
  items :: "todo list"
  writable :: bool

definition load_todos :: "todo_file \<Rightarrow> todo list" where
  "load_todos f = items f"

definition save_todos :: "todo list \<Rightarrow> todo_file \<Rightarrow> todo_file" where
  "save_todos todos f = (if writable f then f\<lparr>items := todos\<rparr> else f)"

definition quote :: string where
  "quote = [CHR 0x27]"

definition add_task :: "string \<Rightarrow> todo_file \<Rightarrow> string \<times> todo_file" where
  "add_task t f =
     (let todos = load_todos f;
          todos = todos @ [\<lparr>task = t, done = False\<rparr>];
          f = save_todos todos f
      in (''Task '' @ quote @ t @ quote @ '' added.'', f))"

text \<open>
  The index comes from \<open>enumerate\<close>, so it is a natural number and \<open>0 <= index\<close> holds.
  The returned text names the task of the list as changed in memory, whether or not the
  write succeeded.
\<close>

definition mark_done :: "nat \<Rightarrow> todo_file \<Rightarrow> string \<times> todo_file" where
  "mark_done index f =
     (let todos = load_todos f in
      if index < length todos
      then (let todos = todos[index := (todos ! index)\<lparr>done := True\<rparr>];
                f = save_todos todos f
            in (''Task '' @ quote @ task (todos ! index) @ quote @ '' marked as done.'', f))
      else (''Invalid task index.'', f))"

section \<open>The tools (tools.py)\<close>

definition add_todo :: "string \<Rightarrow> todo_file \<Rightarrow> string \<times> todo_file" where
  "add_todo t f =
     (let todos = load_todos f;
          cleaned = lower (strip t)
      in if list_ex (\<lambda>e. cleaned = lower (strip (task e))) todos
         then (''Task already exists.'', f)
         else add_task t f)"

text \<open>
  \<open>difflib.SequenceMatcher(None, a, b).ratio()\<close> is library code and a parameter of the
  model. It returns a double, read here as the real number the double denotes; the
  comparisons between doubles are then exact. The literal \<open>0.45\<close> is the double nearest to
  9/20, which is \<open>8106479329266893 / 2^54\<close>.
\<close>

type_synonym ratio = "string \<Rightarrow> string \<Rightarrow> real"

definition threshold :: real where
  "threshold = 8106479329266893 / 18014398509481984"

text \<open>One round of the loop of \<open>complete_todo\<close>, on the pair \<open>(best_match, best_score)\<close>.\<close>

definition best_step ::
  "ratio \<Rightarrow> string \<Rightarrow> nat option \<times> real \<Rightarrow> nat \<times> todo \<Rightarrow> nat option \<times> real" where
  "best_step ratio task_text best it =
     (case it of (i, t) \<Rightarrow>
        if \<not> done t
        then (let score = ratio (lower task_text) (lower (task t))
              in if score > snd best then (Some i, score) else best)
        else best)"

definition best_candidate :: "ratio \<Rightarrow> string \<Rightarrow> todo list \<Rightarrow> nat option \<times> real" where
  "best_candidate ratio task_text todos =
     foldl (best_step ratio task_text) (None, 0) (enumerate 0 todos)"

definition complete_todo :: "ratio \<Rightarrow> string \<Rightarrow> todo_file \<Rightarrow> string \<times> todo_file" where
  "complete_todo ratio task_text f =
     (let todos = load_todos f in
      if todos = [] then (''There are no tasks to complete.'', f)
      else (case best_candidate ratio task_text todos of
              (Some i, best_score) \<Rightarrow>
                if best_score > threshold then mark_done i f
                else (''No matching task found.'', f)
            | (None, _) \<Rightarrow> (''No matching task found.'', f)))"

section \<open>The agent (agent.py)\<close>

subsection \<open>Data\<close>

datatype role = System | User | Assistant

record message =
  role :: role
  content :: string

record config =
  user_name :: string
  user_info :: string
  agent_name :: string
  agent_role :: string
  system_instructions :: string

text \<open>
  The value of \<open>json.loads\<close> on the model's answer: \<open>null\<close> or an object. The model
  covers objects whose keys are among the six of the reasoning format and whose values
  have the types of that format; a field is \<open>None\<close> when its key is absent. The value
  of \<open>final_answer\<close> may also be \<open>null\<close>, which the source provides for
  (\<open>parsed.get("final_answer", "") or ""\<close>): \<open>Some None\<close>.
\<close>

record decision =
  d_thought :: "string option"
  d_action :: "string option"
  d_action_input :: "string option"
  d_save_memory :: "bool option"
  d_memory_content :: "string option"
  d_final_answer :: "string option option"

datatype json = JNull | JObject decision

definition empty_object :: decision where
  "empty_object = \<lparr>d_thought = None, d_action = None, d_action_input = None,
     d_save_memory = None, d_memory_content = None, d_final_answer = None\<rparr>"

text \<open>The result of \<open>collection.query\<close>; \<open>distances = None\<close> when the key is absent.\<close>

record retrieved =
  documents :: "string list"
  distances :: "real list option"

text \<open>
  The calls that leave the process, in the order they are made. Each outside service is
  a parameter of the model and answers from the calls made before it and its argument,
  so that two calls with equal arguments may answer differently. The calls are taken to
  return; where the source catches an exception of a service (\<open>call_model_json\<close>,
  \<open>LongTermMemory.query\<close>, \<open>safe_parse\<close>) the service's answer has a failure value.
\<close>

datatype event =
    ModelJson "message list"
  | ModelPlain "message list"
  | MemoryAdd string
  | MemoryQuery string nat
  | Search string
  | ClockRead

record env =
  chat_plain :: "event list \<Rightarrow> message list \<Rightarrow> string"
  chat_json :: "event list \<Rightarrow> message list \<Rightarrow> string + string"
  json_loads :: "string \<Rightarrow> json option"
  collection_query :: "event list \<Rightarrow> string \<Rightarrow> nat \<Rightarrow> retrieved option"
  internet_search :: "event list \<Rightarrow> string \<Rightarrow> string"
  clock :: "event list \<Rightarrow> string"
  seq_ratio :: ratio
  repr_docs :: "string list \<Rightarrow> string"
  repr_distances :: "real list \<Rightarrow> string"

text \<open>
  The agent object (\<open>config\<close>, \<open>short_term\<close>, \<open>internal_log\<close>), the file \<open>todo.json\<close>
  and the calls made so far.
\<close>

record state =
  config :: config
  short_term :: "message list"
  internal_log :: "string list"
  todo_json :: todo_file
  events :: "event list"

definition max_context :: nat where
  "max_context = 6"

definition init_agent :: "config \<Rightarrow> todo_file \<Rightarrow> state" where
  "init_agent cfg f =
     \<lparr>config = cfg, short_term = [], internal_log = [], todo_json = f, events = []\<rparr>"

subsection \<open>Prompt and parser\<close>

definition nl :: string where
  "nl = [CHR 0x0A]"

definition dq :: string where
  "dq = [CHR 0x22]"

definition system_prompt :: "config \<Rightarrow> string \<Rightarrow> string" where
  "system_prompt cfg retrieved_memory =
     nl @ ''You are '' @ agent_name cfg @ ''.'' @ nl @
     ''Role: '' @ agent_role cfg @ ''.'' @ nl @ nl @
     ''System Instructions:'' @ nl @ system_instructions cfg @ nl @ nl @
     ''User: '' @ user_name cfg @ nl @
     ''User Info: '' @ user_info cfg @ nl @ nl @
     ''Retrieved Memory:'' @ nl @ retrieved_memory @ nl @ nl @
     ''Rules:'' @ nl @
     ''- Use tools ONLY if necessary.'' @ nl @
     ''- For normal knowledge questions, answer directly.'' @ nl @
     ''- Use add_todo only for explicit task creation.'' @ nl @
     ''- Use complete_todo only if user clearly says task is finished.'' @ nl @
     ''- Use date only for date requests.'' @ nl @ nl @
     ''Reasoning format:'' @ nl @ nl @
     ''{'' @ nl @
     '' '' @ dq @ ''thought'' @ dq @ '': '' @ dq @ ''...'' @ dq @ '','' @ nl @
     '' '' @ dq @ ''action'' @ dq @ '': '' @ dq @
        ''search | add_todo | complete_todo | date | none'' @ dq @ '','' @ nl @
     '' '' @ dq @ ''action_input'' @ dq @ '': '' @ dq @ ''...'' @ dq @ '','' @ nl @
     '' '' @ dq @ ''save_memory'' @ dq @ '': true/false,'' @ nl @
     '' '' @ dq @ ''memory_content'' @ dq @ '': '' @ dq @ ''...'' @ dq @ '','' @ nl @
     '' '' @ dq @ ''final_answer'' @ dq @ '': '' @ dq @ ''...'' @ dq @ nl @
     ''}'' @ nl"

text \<open>
  \<open>re.search(r"\{.*\}", text, re.DOTALL)\<close>: the match starts at the first opening brace
  and, the star being greedy and the dot matching every character, ends at the last
  closing brace behind it; there is no match when no closing brace follows.
\<close>

definition brace_match :: "string \<Rightarrow> string option" where
  "brace_match text =
     (let rest = dropWhile (\<lambda>c. c \<noteq> CHR ''{'') text in
      if rest = [] then None
      else (let r = dropWhile (\<lambda>c. c \<noteq> CHR ''}'') (rev (tl rest)) in
            if r = [] then None else Some (CHR ''{'' # rev r)))"

definition safe_parse :: "env \<Rightarrow> string \<Rightarrow> json option" where
  "safe_parse e text =
     (case json_loads e text of
        Some v \<Rightarrow> Some v
      | None \<Rightarrow>
          (case brace_match text of
             Some m \<Rightarrow> (case json_loads e m of Some v \<Rightarrow> Some v | None \<Rightarrow> None)
           | None \<Rightarrow> None))"

text \<open>
  \<open>not parsed\<close>: true of \<open>None\<close> (the parser's failure value and the value of \<open>null\<close>)
  and of the empty object.
\<close>

definition falsy :: "json option \<Rightarrow> bool" where
  "falsy parsed =
     (case parsed of None \<Rightarrow> True | Some JNull \<Rightarrow> True | Some (JObject d) \<Rightarrow> d = empty_object)"

subsection \<open>State changes and outside calls\<close>

definition log_append :: "string \<Rightarrow> state \<Rightarrow> state" where
  "log_append line s = s\<lparr>internal_log := internal_log s @ [line]\<rparr>"

text \<open>
  \<open>self.short_term.append(m)\<close> followed by
  \<open>self.short_term = self.short_term[-self.max_context:]\<close>.
\<close>

definition append_turn :: "message \<Rightarrow> state \<Rightarrow> state" where
  "append_turn m s =
     (let st = short_term s @ [m]
      in s\<lparr>short_term := drop (length st - max_context) st\<rparr>)"

definition call_model_plain :: "env \<Rightarrow> message list \<Rightarrow> state \<Rightarrow> string \<times> state" where
  "call_model_plain e messages s =
     (chat_plain e (events s) messages, s\<lparr>events := events s @ [ModelPlain messages]\<rparr>)"

definition call_model_json :: "env \<Rightarrow> message list \<Rightarrow> state \<Rightarrow> json option \<times> state" where
  "call_model_json e messages s =
     (let s' = s\<lparr>events := events s @ [ModelJson messages]\<rparr> in
      case chat_json e (events s) messages of
        Inr text \<Rightarrow> (safe_parse e text, s')
      | Inl exn \<Rightarrow> (None, log_append (''Model JSON call failed: '' @ exn) s'))"

definition add_memory :: "string \<Rightarrow> state \<Rightarrow> state" where
  "add_memory text s = s\<lparr>events := events s @ [MemoryAdd text]\<rparr>"

definition memory_query :: "env \<Rightarrow> string \<Rightarrow> nat \<Rightarrow> state \<Rightarrow> retrieved \<times> state" where
  "memory_query e query k s =
     (let s' = s\<lparr>events := events s @ [MemoryQuery query k]\<rparr> in
      case collection_query e (events s) query k of
        Some r \<Rightarrow> (r, s')
      | None \<Rightarrow> (\<lparr>documents = [], distances = None\<rparr>, s'))"

definition get_current_date :: "env \<Rightarrow> state \<Rightarrow> string \<times> state" where
  "get_current_date e s = (clock e (events s), s\<lparr>events := events s @ [ClockRead]\<rparr>)"

definition search_tool :: "env \<Rightarrow> string \<Rightarrow> state \<Rightarrow> string \<times> state" where
  "search_tool e query s =
     (internet_search e (events s) query, s\<lparr>events := events s @ [Search query]\<rparr>)"

definition add_todo_tool :: "string \<Rightarrow> state \<Rightarrow> string \<times> state" where
  "add_todo_tool t s = (case add_todo t (todo_json s) of (r, f) \<Rightarrow> (r, s\<lparr>todo_json := f\<rparr>))"

definition complete_todo_tool :: "env \<Rightarrow> string \<Rightarrow> state \<Rightarrow> string \<times> state" where
  "complete_todo_tool e t s =
     (case complete_todo (seq_ratio e) t (todo_json s) of (r, f) \<Rightarrow> (r, s\<lparr>todo_json := f\<rparr>))"

definition execute_tool :: "env \<Rightarrow> string \<Rightarrow> string \<Rightarrow> state \<Rightarrow> string option \<times> state" where
  "execute_tool e action action_input s =
     (let s = log_append (''Tool selected: '' @ action) s;
          s = log_append (''Tool input: '' @ action_input) s;
          (result, s) =
            (if action = ''search'' then apfst Some (search_tool e action_input s)
             else if action = ''add_todo'' then apfst Some (add_todo_tool action_input s)
             else if action = ''complete_todo''
               then apfst Some (complete_todo_tool e action_input s)
             else if action = ''date'' then apfst Some (get_current_date e s)
             else (None, s))
      in case result of
           Some r \<Rightarrow> (result, if r \<noteq> [] then log_append (''Tool observation: '' @ r) s else s)
         | None \<Rightarrow> (result, s))"

subsection \<open>The pipeline\<close>

text \<open>
  Every return of \<open>process_single_intent\<close> appends the response as an assistant turn
  first.
\<close>

definition respond :: "string \<Rightarrow> state \<Rightarrow> (error + string) \<times> state" where
  "respond response s = (Inr response, append_turn \<lparr>role = Assistant, content = response\<rparr> s)"

definition preference_phrasing :: "string \<Rightarrow> bool" where
  "preference_phrasing user_lower =
     ((startswith user_lower ''i like''
       \<or> startswith user_lower ''i love''
       \<or> startswith user_lower ''i prefer''
       \<or> startswith user_lower ''my favorite''
       \<or> startswith user_lower ''remember'')
      \<and> \<not> endswith user_lower ''?'')"

definition completion_keywords :: "string list" where
  "completion_keywords = [''i did'', ''i finished'', ''completed'']"

definition task_triggers :: "string list" where
  "task_triggers = [''i need to'', ''i have to'', ''remind me to'']"

definition knowledge_prefixes :: "string list" where
  "knowledge_prefixes = [''what is'', ''who is'', ''define'', ''explain'', ''why'']"

definition search_intent_keywords :: "string list" where
  "search_intent_keywords = [''search'', ''latest'', ''recent'', ''find'', ''trend'', ''news'']"

text \<open>
  The loop \<open>for trigger in task_triggers\<close>: the first trigger found in the input returns
  from the function; \<open>None\<close> when the loop ends without a return.
\<close>

fun task_creation ::
  "string list \<Rightarrow> string \<Rightarrow> state \<Rightarrow> ((error + string) \<times> state) option" where
  "task_creation [] user_lower s = None"
| "task_creation (trigger # triggers) user_lower s =
     (if contains trigger user_lower
      then (case py_split user_lower trigger of
              Inl exn \<Rightarrow> Some (Inl exn, s)
            | Inr parts \<Rightarrow>
                (let task_text = strip (last parts) in
                 case add_todo_tool task_text s of (response, s) \<Rightarrow> Some (respond response s)))
      else task_creation triggers user_lower s)"

definition get_or :: "'a option \<Rightarrow> 'a \<Rightarrow> 'a" where
  "get_or v d = (case v of Some x \<Rightarrow> x | None \<Rightarrow> d)"

text \<open>\<open>v or ""\<close> for a value that is a string or \<open>None\<close>.\<close>

definition or_empty :: "string option \<Rightarrow> string" where
  "or_empty v = (case v of Some a \<Rightarrow> a | None \<Rightarrow> [])"

definition observation_text :: "string option \<Rightarrow> string" where
  "observation_text observation =
     ''Observation: '' @ (case observation of Some r \<Rightarrow> r | None \<Rightarrow> ''None'')"

definition second_messages :: "string option \<Rightarrow> message list" where
  "second_messages observation =
     [\<lparr>role = System, content = ''Produce the final answer based on the observation.''\<rparr>,
      \<lparr>role = User, content = observation_text observation\<rparr>]"

text \<open>
  The block under \<open>if action != "none"\<close>, which the source has twice (lines 290 to 298
  and 306 to 314): the tool, then a plain call on the observation.
\<close>

definition tool_then_synthesis :: "env \<Rightarrow> string \<Rightarrow> string \<Rightarrow> state \<Rightarrow> string \<times> state" where
  "tool_then_synthesis e action action_input s =
     (case execute_tool e action action_input s of
        (observation, s) \<Rightarrow> call_model_plain e (second_messages observation) s)"

text \<open>The function from the parsed decision on (lines 281 to 323).\<close>

definition act_on_decision :: "env \<Rightarrow> decision \<Rightarrow> state \<Rightarrow> (error + string) \<times> state" where
  "act_on_decision e parsed s =
     (let thought = get_or (d_thought parsed) [];
          action = get_or (d_action parsed) ''none'';
          action_input = get_or (d_action_input parsed) [];
          final_answer = or_empty (get_or (d_final_answer parsed) (Some []));
          save_memory = get_or (d_save_memory parsed) False;
          memory_content = get_or (d_memory_content parsed) [];
          s = log_append (''Thought: '' @ thought) s;
          (final_answer, s) =
            (if action \<noteq> ''none'' then tool_then_synthesis e action action_input s
             else (final_answer, s));
          (final_answer, s) =
            (if final_answer = []
             then (let s = log_append
                      ''Final answer missing from JSON. Falling back to plain model.'' s
                   in call_model_plain e (short_term s) s)
             else (final_answer, s));
          s = log_append (''Thought: '' @ thought) s;
          (final_answer, s) =
            (if action \<noteq> ''none'' then tool_then_synthesis e action action_input s
             else (final_answer, s));
          s = (if save_memory \<and> memory_content \<noteq> []
               then log_append (''Memory saved by LLM: '' @ memory_content)
                      (add_memory memory_content s)
               else s)
      in respond final_answer s)"

definition plain_fallback :: "env \<Rightarrow> state \<Rightarrow> (error + string) \<times> state" where
  "plain_fallback e s =
     (case call_model_plain e (short_term s) s of (response, s) \<Rightarrow> respond response s)"

text \<open>Step 6, the reasoning loop (lines 258 to 323).\<close>

definition reasoning_cycle :: "env \<Rightarrow> string \<Rightarrow> state \<Rightarrow> (error + string) \<times> state" where
  "reasoning_cycle e user_input s =
     (let (retrieved, s) = memory_query e user_input 2 s;
          retrieved_docs = documents retrieved;
          dists = get_or (distances retrieved) [];
          s = log_append (''Retrieved memory: '' @ repr_docs e retrieved_docs) s;
          s = log_append (''Distances: '' @ repr_distances e dists) s;
          messages =
            \<lparr>role = System, content = system_prompt (config s) (repr_docs e retrieved_docs)\<rparr>
              # short_term s;
          (parsed, s) = call_model_json e messages s
      in if falsy parsed then plain_fallback e s
         else (case parsed of
                 Some (JObject d) \<Rightarrow> act_on_decision e d s
               | _ \<Rightarrow> plain_fallback e s))"

definition knowledge_messages :: "config \<Rightarrow> string \<Rightarrow> message list" where
  "knowledge_messages cfg user_input =
     [\<lparr>role = System, content = ''You are '' @ agent_role cfg @ ''.''\<rparr>,
      \<lparr>role = User, content = user_input\<rparr>]"

definition acknowledgment :: string where
  "acknowledgment = ''Got it. I'' @ quote @ ''ll remember that.''"

definition process_single_intent :: "env \<Rightarrow> string \<Rightarrow> state \<Rightarrow> (error + string) \<times> state" where
  "process_single_intent e user_input s =
     (let user_lower = strip (lower user_input);
          s = append_turn \<lparr>role = User, content = user_input\<rparr> s
      in if preference_phrasing user_lower
         then (let memory_fact = ''User preference: '' @ strip user_input;
                   s = add_memory memory_fact s;
                   s = log_append ''Preference stored deterministically.'' s
               in respond acknowledgment s)
         else if list_ex (\<lambda>k. contains k user_lower) completion_keywords
         then (case complete_todo_tool e user_input s of (response, s) \<Rightarrow> respond response s)
         else (case task_creation task_triggers user_lower s of
                 Some out \<Rightarrow> out
               | None \<Rightarrow>
                   if contains ''today'' user_lower \<or> contains ''current date'' user_lower
                   then (case get_current_date e s of (response, s) \<Rightarrow> respond response s)
                   else if list_ex (\<lambda>p. startswith user_lower p) knowledge_prefixes
                           \<and> \<not> list_ex (\<lambda>k. contains k user_lower) search_intent_keywords
                   then (let s = log_append ''Knowledge guard triggered.'' s in
                         case call_model_plain e (knowledge_messages (config s) user_input) s of
                           (response, s) \<Rightarrow> respond response s)
                   else reasoning_cycle e user_input s))"

section \<open>Notions used in the statements\<close>

text \<open>
  Some task not yet done scores above the threshold against the text: the best score over
  the tasks not yet done exceeds 0.45.
\<close>

definition pending_above :: "ratio \<Rightarrow> string \<Rightarrow> todo list \<Rightarrow> bool" where
  "pending_above r t todos =
     list_ex (\<lambda>x. \<not> done x \<and> threshold < r (lower t) (lower (task x))) todos"

text \<open>
  The words of the specification for rule 3, "everything after the last occurrence of
  that phrase": \<open>rfind s sub\<close> is the greatest index at which \<open>sub\<close> occurs in \<open>s\<close>
  (\<open>str.rfind\<close>), and \<open>text_after_last sub s\<close> is the part of \<open>s\<close> behind that occurrence.
  A string is borderless when none of its proper non-empty suffixes is one of its
  prefixes, so that two occurrences of it never overlap.
\<close>

definition occurs_at :: "string \<Rightarrow> string \<Rightarrow> nat \<Rightarrow> bool" where
  "occurs_at sub s i = (i + length sub \<le> length s \<and> take (length sub) (drop i s) = sub)"

fun last_index_upto :: "string \<Rightarrow> string \<Rightarrow> nat \<Rightarrow> nat option" where
  "last_index_upto sub s 0 = (if occurs_at sub s 0 then Some 0 else None)"
| "last_index_upto sub s (Suc i) =
     (if occurs_at sub s (Suc i) then Some (Suc i) else last_index_upto sub s i)"

definition rfind :: "string \<Rightarrow> string \<Rightarrow> nat option" where
  "rfind s sub = last_index_upto sub s (length s)"

definition text_after_last :: "string \<Rightarrow> string \<Rightarrow> string option" where
  "text_after_last sub s = map_option (\<lambda>i. drop (i + length sub) s) (rfind s sub)"

definition borderless :: "string \<Rightarrow> bool" where
  "borderless t = list_all (\<lambda>k. \<not> startswith t (drop k t)) [1..<length t]"

text \<open>
  No rule of the router takes the input (its lower-cased, trimmed form), so that the
  function goes on to the reasoning loop.
\<close>

definition no_rule_matches :: "string \<Rightarrow> bool" where
  "no_rule_matches user_lower =
     (\<not> preference_phrasing user_lower
      \<and> \<not> list_ex (\<lambda>k. contains k user_lower) completion_keywords
      \<and> \<not> list_ex (\<lambda>t. contains t user_lower) task_triggers
      \<and> \<not> contains ''today'' user_lower
      \<and> \<not> contains ''current date'' user_lower
      \<and> \<not> (list_ex (startswith user_lower) knowledge_prefixes
            \<and> \<not> list_ex (\<lambda>k. contains k user_lower) search_intent_keywords))"

text \<open>
  The application (app.py, lines 62 to 68) calls \<open>reasoning_loop\<close>, which is
  \<open>process_single_intent\<close>, once for each utterance, on the same agent. \<open>run\<close> is the
  state after a list of utterances, \<open>transcript\<close> the turns the calls append to the
  conversation window, in the order of the appends: the user turn, then the response as
  the assistant turn (none when the call raises).
\<close>

fun run :: "env \<Rightarrow> string list \<Rightarrow> state \<Rightarrow> state" where
  "run e [] s = s"
| "run e (u # us) s = run e us (snd (process_single_intent e u s))"


section \<open>Concrete inputs\<close>

text \<open>The files, services and configurations at which the theorems below are instantiated.\<close>

definition empty_file :: todo_file where
  "empty_file = \<lparr>items = [], writable = True\<rparr>"

definition milk_file :: todo_file where
  "milk_file =
     \<lparr>items = [\<lparr>task = ''call mom'', done = True\<rparr>, \<lparr>task = ''buy milk'', done = False\<rparr>],
      writable = True\<rparr>"

text \<open>A similarity that tells equal strings (1) from different ones (0).\<close>

definition exact_ratio :: ratio where
  "exact_ratio a b = (if a = b then 1 else 0)"


definition readonly_file :: todo_file where
  "readonly_file = \<lparr>items = [], writable = False\<rparr>"

definition demo_config :: config where
  "demo_config =
     \<lparr>user_name = ''User'', user_info = [], agent_name = ''OpenClaw'',
      agent_role = ''Autonomous AI Agent'', system_instructions = []\<rparr>"

definition demo_env :: env where
  "demo_env =
     \<lparr>chat_plain = (\<lambda>h ms. ''Plain answer.''),
      chat_json = (\<lambda>h ms. Inr ''not {json} at all''),
      json_loads = (\<lambda>t. None),
      collection_query = (\<lambda>h q k. None),
      internet_search = (\<lambda>h q. ''No relevant results found.''),
      clock = (\<lambda>h. ''Wednesday, November 04, 2026''),
      seq_ratio = exact_ratio,
      repr_docs = (\<lambda>ds. ''[]''),
      repr_distances = (\<lambda>ds. ''[]'')\<rparr>"

text \<open>A model that answers with the text of the last message it is given.\<close>

definition echo_env :: env where
  "echo_env = demo_env\<lparr>chat_plain := (\<lambda>h ms. content (last ms))\<rparr>"

definition add_decision :: decision where
  "add_decision =
     \<lparr>d_thought = Some ''The user wants a task.'', d_action = Some ''add_todo'',
      d_action_input = Some ''Buy Milk'', d_save_memory = Some False,
      d_memory_content = None, d_final_answer = Some (Some ''Done.'')\<rparr>"

text \<open>
  A structured answer that asks for the \<open>add_todo\<close> tool, and services whose structured
  call returns it and whose \<open>json.loads\<close> reads it.
\<close>

definition decision_text :: string where
  "decision_text =
     ''{'' @ dq @ ''thought'' @ dq @ '': '' @ dq @ ''The user wants a task.'' @ dq @ '', ''
       @ dq @ ''action'' @ dq @ '': '' @ dq @ ''add_todo'' @ dq @ '', ''
       @ dq @ ''action_input'' @ dq @ '': '' @ dq @ ''Buy Milk'' @ dq @ '', ''
       @ dq @ ''save_memory'' @ dq @ '': false, ''
       @ dq @ ''final_answer'' @ dq @ '': '' @ dq @ ''Done.'' @ dq @ ''}''"

definition tool_env :: env where
  "tool_env =
     echo_env\<lparr>chat_json := (\<lambda>h ms. Inr decision_text),
              json_loads := (\<lambda>t. if t = decision_text then Some (JObject add_decision)
                                  else None)\<rparr>"

section \<open>Properties of the tools\<close>

lemma best_step_cases:
  "best_step r t (m, b) (n, x) = (m1, b1) \<Longrightarrow>
     (m1 = m \<and> b1 = b \<and> (\<not> done x \<longrightarrow> r (lower t) (lower (task x)) \<le> b)) \<or>
     (m1 = Some n \<and> \<not> done x \<and> r (lower t) (lower (task x)) = b1 \<and> b < b1)"
  by (auto simp: best_step_def Let_def split: if_splits)

lemma best_fold:
  "foldl (best_step r t) (m, b) (enumerate n xs) = (m', b') \<Longrightarrow>
     b \<le> b' \<and> (\<forall>x \<in> set xs. \<not> done x \<longrightarrow> r (lower t) (lower (task x)) \<le> b') \<and>
     ((m' = m \<and> b' = b) \<or>
      (\<exists>i. m' = Some i \<and> n \<le> i \<and> i < n + length xs \<and> \<not> done (xs ! (i - n))
          \<and> r (lower t) (lower (task (xs ! (i - n)))) = b' \<and> b < b'))"
proof (induction xs arbitrary: n m b)
  case Nil
  then show ?case by simp
next
  case (Cons x xs)
  obtain m1 b1 where st: "best_step r t (m, b) (n, x) = (m1, b1)"
    by (cases "best_step r t (m, b) (n, x)")
  with Cons.prems have f: "foldl (best_step r t) (m1, b1) (enumerate (Suc n) xs) = (m', b')"
    by simp
  from Cons.IH[OF f] have le: "b1 \<le> b'"
    and all: "\<forall>x \<in> set xs. \<not> done x \<longrightarrow> r (lower t) (lower (task x)) \<le> b'"
    and pick: "(m' = m1 \<and> b' = b1) \<or>
      (\<exists>i. m' = Some i \<and> Suc n \<le> i \<and> i < Suc n + length xs \<and> \<not> done (xs ! (i - Suc n))
          \<and> r (lower t) (lower (task (xs ! (i - Suc n)))) = b' \<and> b1 < b')"
    by blast+
  from best_step_cases[OF st] have bb1: "b \<le> b1" by auto
  from best_step_cases[OF st] have xle: "\<not> done x \<longrightarrow> r (lower t) (lower (task x)) \<le> b1" by auto
  have c1: "b \<le> b'" using le bb1 by simp
  have c2: "\<forall>y \<in> set (x # xs). \<not> done y \<longrightarrow> r (lower t) (lower (task y)) \<le> b'"
    using all xle le by auto
  have c3: "(m' = m \<and> b' = b) \<or>
      (\<exists>i. m' = Some i \<and> n \<le> i \<and> i < n + length (x # xs) \<and> \<not> done ((x # xs) ! (i - n))
          \<and> r (lower t) (lower (task ((x # xs) ! (i - n)))) = b' \<and> b < b')"
    using pick
  proof
    assume same: "m' = m1 \<and> b' = b1"
    from best_step_cases[OF st] show ?thesis
    proof
      assume "m1 = m \<and> b1 = b \<and> (\<not> done x \<longrightarrow> r (lower t) (lower (task x)) \<le> b)"
      with same show ?thesis by simp
    next
      assume "m1 = Some n \<and> \<not> done x \<and> r (lower t) (lower (task x)) = b1 \<and> b < b1"
      with same have "m' = Some n \<and> n \<le> n \<and> n < n + length (x # xs) \<and> \<not> done ((x # xs) ! (n - n))
          \<and> r (lower t) (lower (task ((x # xs) ! (n - n)))) = b' \<and> b < b'" by simp
      then show ?thesis by blast
    qed
  next
    assume "\<exists>i. m' = Some i \<and> Suc n \<le> i \<and> i < Suc n + length xs \<and> \<not> done (xs ! (i - Suc n))
          \<and> r (lower t) (lower (task (xs ! (i - Suc n)))) = b' \<and> b1 < b'"
    then obtain i where i: "m' = Some i" "Suc n \<le> i" "i < Suc n + length xs"
      "\<not> done (xs ! (i - Suc n))" "r (lower t) (lower (task (xs ! (i - Suc n)))) = b'" "b1 < b'"
      by blast
    from i(2) have nth: "(x # xs) ! (i - n) = xs ! (i - Suc n)"
      by (simp add: nth_Cons' Suc_le_eq)
    have "m' = Some i \<and> n \<le> i \<and> i < n + length (x # xs) \<and> \<not> done ((x # xs) ! (i - n))
          \<and> r (lower t) (lower (task ((x # xs) ! (i - n)))) = b' \<and> b < b'"
      using i bb1 nth by simp
    then show ?thesis by blast
  qed
  from c1 c2 c3 show ?case by blast
qed

lemma best_candidate_cases:
  assumes "best_candidate r t todos = (m, b)"
  shows "0 \<le> b"
    and "\<forall>x \<in> set todos. \<not> done x \<longrightarrow> r (lower t) (lower (task x)) \<le> b"
    and "(m = None \<and> b = 0) \<or>
         (\<exists>i. m = Some i \<and> i < length todos \<and> \<not> done (todos ! i)
              \<and> r (lower t) (lower (task (todos ! i))) = b \<and> 0 < b)"
  using best_fold[of r t None 0 0 todos m b] assms
  by (auto simp: best_candidate_def)

lemma threshold_pos: "0 < threshold"
  by (simp add: threshold_def)

lemma complete_todo_cases:
  "(items f = [] \<and> complete_todo r t f = (''There are no tasks to complete.'', f)) \<or>
   (items f \<noteq> [] \<and> \<not> pending_above r t (items f)
      \<and> complete_todo r t f = (''No matching task found.'', f)) \<or>
   (\<exists>i. i < length (items f) \<and> \<not> done (items f ! i)
      \<and> threshold < r (lower t) (lower (task (items f ! i)))
      \<and> (\<forall>x \<in> set (items f). \<not> done x \<longrightarrow>
            r (lower t) (lower (task x)) \<le> r (lower t) (lower (task (items f ! i))))
      \<and> complete_todo r t f = mark_done i f)"
proof (cases "items f = []")
  case True
  then show ?thesis by (simp add: complete_todo_def load_todos_def)
next
  case False
  obtain m b where mb: "best_candidate r t (items f) = (m, b)"
    by (cases "best_candidate r t (items f)")
  note bc = best_candidate_cases[OF mb]
  show ?thesis
  proof (cases "m \<noteq> None \<and> threshold < b")
    case True
    then obtain i where i: "m = Some i" by auto
    with bc(3) have p: "i < length (items f)" "\<not> done (items f ! i)"
      "r (lower t) (lower (task (items f ! i))) = b" by auto
    have "complete_todo r t f = mark_done i f"
      using False mb i True by (simp add: complete_todo_def load_todos_def)
    with p bc(2) True show ?thesis by blast
  next
    case nomatch: False
    have le: "b \<le> threshold"
    proof (cases m)
      case None
      with bc(3) have "b = 0" by auto
      then show ?thesis using threshold_pos by simp
    next
      case (Some i)
      with nomatch show ?thesis by simp
    qed
    with bc(2) have "\<not> pending_above r t (items f)"
      by (fastforce simp: pending_above_def list_ex_iff)
    moreover have "complete_todo r t f = (''No matching task found.'', f)"
      using False mb nomatch le by (cases m) (auto simp: complete_todo_def load_todos_def)
    ultimately show ?thesis using False by blast
  qed
qed

lemma mark_done_in_range:
  "i < length (items f) \<Longrightarrow>
     mark_done i f =
       (''Task '' @ quote @ task (items f ! i) @ quote @ '' marked as done.'',
        if writable f then f\<lparr>items := (items f)[i := (items f ! i)\<lparr>done := True\<rparr>]\<rparr> else f)"
  by (simp add: mark_done_def load_todos_def save_todos_def Let_def)

lemma pending_above_iff:
  "pending_above r t todos \<longleftrightarrow>
     (\<exists>x \<in> set todos. \<not> done x \<and> threshold < r (lower t) (lower (task x)))"
  by (simp add: pending_above_def list_ex_iff)

text \<open>
  Claim C2, as amended. \<open>complete_todo\<close> on an empty task list returns "There are no tasks
  to complete." and leaves the file as it is. On a non-empty list whose tasks not yet done
  all score at most 0.45 against the text (so also when every task is done) it returns
  "No matching task found." and leaves the file as it is, and it returns that string in
  no other case. The list changes only when some task not yet done scores strictly above
  0.45.
\<close>

theorem complete_todo_sentinel:
  "(items f = [] \<longrightarrow> complete_todo r t f = (''There are no tasks to complete.'', f)) \<and>
   (items f \<noteq> [] \<and> (\<forall>x \<in> set (items f). \<not> done x \<longrightarrow> r (lower t) (lower (task x)) \<le> threshold)
      \<longrightarrow> complete_todo r t f = (''No matching task found.'', f)) \<and>
   (fst (complete_todo r t f) = ''No matching task found.''
      \<longrightarrow> items f \<noteq> [] \<and> (\<forall>x \<in> set (items f). \<not> done x \<longrightarrow> r (lower t) (lower (task x)) \<le> threshold)) \<and>
   (items (snd (complete_todo r t f)) \<noteq> items f
      \<longrightarrow> (\<exists>x \<in> set (items f). \<not> done x \<and> threshold < r (lower t) (lower (task x))))"
proof -
  have ne: "\<not> pending_above r t (items f) \<longleftrightarrow>
      (\<forall>x \<in> set (items f). \<not> done x \<longrightarrow> r (lower t) (lower (task x)) \<le> threshold)"
    by (auto simp: pending_above_iff not_less)
  from complete_todo_cases[of f r t] show ?thesis
  proof (elim disjE exE conjE)
    assume "items f = []" "complete_todo r t f = (''There are no tasks to complete.'', f)"
    then show ?thesis by simp
  next
    assume "items f \<noteq> []" "\<not> pending_above r t (items f)"
      "complete_todo r t f = (''No matching task found.'', f)"
    then show ?thesis using ne by simp
  next
    fix i
    assume i: "i < length (items f)" "\<not> done (items f ! i)"
      "threshold < r (lower t) (lower (task (items f ! i)))"
      "complete_todo r t f = mark_done i f"
    from i(1) have nonempty: "items f \<noteq> []" by auto
    from i(1,2,3) have ex: "\<exists>x \<in> set (items f). \<not> done x \<and> threshold < r (lower t) (lower (task x))"
      using nth_mem by blast
    then have notall: "\<not> (\<forall>x \<in> set (items f). \<not> done x \<longrightarrow> r (lower t) (lower (task x)) \<le> threshold)"
      by (auto simp: not_le)
    have resp: "fst (complete_todo r t f) \<noteq> ''No matching task found.''"
      using i(1,4) by (simp add: mark_done_in_range quote_def)
    show ?thesis using nonempty ex notall resp by auto
  qed
qed

theorem complete_todo_sentinel_witness:
  "items empty_file = []
   \<and> complete_todo exact_ratio ''buy milk'' empty_file
       = (''There are no tasks to complete.'', empty_file)
   \<and> items milk_file \<noteq> []
   \<and> list_all (\<lambda>x. done x \<or> exact_ratio (lower ''walk dog'') (lower (task x)) \<le> threshold)
         (items milk_file)
   \<and> complete_todo exact_ratio ''walk dog'' milk_file = (''No matching task found.'', milk_file)
   \<and> fst (complete_todo exact_ratio ''walk dog'' milk_file) = ''No matching task found.''
   \<and> items (snd (complete_todo exact_ratio ''Buy Milk'' milk_file)) \<noteq> items milk_file
   \<and> (\<exists>x \<in> set (items milk_file).
         \<not> done x \<and> threshold < exact_ratio (lower ''Buy Milk'') (lower (task x)))"
proof -
  have h1: "items empty_file = []"
    by (simp add: empty_file_def)
  have h2: "items milk_file \<noteq> []"
    by (simp add: milk_file_def)
  have h3: "\<forall>x \<in> set (items milk_file).
         \<not> done x \<longrightarrow> exact_ratio (lower ''walk dog'') (lower (task x)) \<le> threshold"
    by code_simp
  have h4: "items (snd (complete_todo exact_ratio ''Buy Milk'' milk_file)) \<noteq> items milk_file"
    by code_simp
  from complete_todo_sentinel [of empty_file exact_ratio "''buy milk''"] h1
  have c1: "complete_todo exact_ratio ''buy milk'' empty_file
       = (''There are no tasks to complete.'', empty_file)"
    by blast
  from complete_todo_sentinel [of milk_file exact_ratio "''walk dog''"] h2 h3
  have c2: "complete_todo exact_ratio ''walk dog'' milk_file
       = (''No matching task found.'', milk_file)"
    by blast
  from complete_todo_sentinel [of milk_file exact_ratio "''Buy Milk''"] h4
  have c3: "\<exists>x \<in> set (items milk_file).
         \<not> done x \<and> threshold < exact_ratio (lower ''Buy Milk'') (lower (task x))"
    by blast
  from h3
  have h5: "list_all (\<lambda>x. done x \<or> exact_ratio (lower ''walk dog'') (lower (task x)) \<le> threshold)
         (items milk_file)"
    by (auto simp: list_all_iff)
  from h1 h2 h4 h5 c1 c2 c3 show ?thesis
    by simp
qed

text \<open>
  Claim C2 as stated fails on the empty list: the string returned there is not
  "No matching task found.".
\<close>

theorem complete_todo_empty_counterexample:
  "fst (complete_todo exact_ratio ''buy milk'' empty_file) = ''There are no tasks to complete.''
   \<and> fst (complete_todo exact_ratio ''buy milk'' empty_file) \<noteq> ''No matching task found.''"
  by code_simp




lemma add_todo_present:
  "list_ex (\<lambda>e. lower (strip t) = lower (strip (task e))) (items f) \<Longrightarrow>
     add_todo t f = (''Task already exists.'', f)"
  by (simp add: add_todo_def load_todos_def Let_def)

lemma add_todo_fresh:
  "\<not> list_ex (\<lambda>e. lower (strip t) = lower (strip (task e))) (items f) \<Longrightarrow>
     add_todo t f =
       (''Task '' @ quote @ t @ quote @ '' added.'',
        if writable f then f\<lparr>items := items f @ [\<lparr>task = t, done = False\<rparr>]\<rparr> else f)"
  by (simp add: add_todo_def add_task_def load_todos_def save_todos_def Let_def)

text \<open>
  Claim C6, as amended. When the task file can be written and two task texts are equal
  after trimming and lower-casing, the second of two calls of \<open>add_todo\<close> returns
  "Task already exists." and leaves the file as the first call left it; across the two
  calls the list grows by one entry when no entry equal to the text after trimming and
  lower-casing was there before the first call, and by none when one was.
\<close>

theorem add_todo_twice:
  assumes w: "writable f" and eq: "lower (strip t1) = lower (strip t2)"
  shows "fst (add_todo t2 (snd (add_todo t1 f))) = ''Task already exists.'' \<and>
         snd (add_todo t2 (snd (add_todo t1 f))) = snd (add_todo t1 f) \<and>
         length (items (snd (add_todo t2 (snd (add_todo t1 f))))) =
           length (items f) +
           (if list_ex (\<lambda>e. lower (strip t1) = lower (strip (task e))) (items f) then 0 else 1)"
proof (cases "list_ex (\<lambda>e. lower (strip t1) = lower (strip (task e))) (items f)")
  case True
  then have first: "add_todo t1 f = (''Task already exists.'', f)"
    by (rule add_todo_present)
  from True eq have "list_ex (\<lambda>e. lower (strip t2) = lower (strip (task e))) (items f)"
    by simp
  then have "add_todo t2 f = (''Task already exists.'', f)"
    by (rule add_todo_present)
  with first True show ?thesis by simp
next
  case False
  let ?g = "f\<lparr>items := items f @ [\<lparr>task = t1, done = False\<rparr>]\<rparr>"
  from False w have first: "snd (add_todo t1 f) = ?g"
    by (simp add: add_todo_fresh)
  have "list_ex (\<lambda>e. lower (strip t2) = lower (strip (task e))) (items ?g)"
    using eq by (simp add: list_ex_iff)
  then have "add_todo t2 ?g = (''Task already exists.'', ?g)"
    by (rule add_todo_present)
  with first False show ?thesis by simp
qed

theorem add_todo_twice_witness:
  "writable empty_file \<and> lower (strip ''Buy Milk'') = lower (strip '' buy milk'')
   \<and> fst (add_todo '' buy milk'' (snd (add_todo ''Buy Milk'' empty_file))) = ''Task already exists.''
   \<and> length (items (snd (add_todo '' buy milk'' (snd (add_todo ''Buy Milk'' empty_file))))) = 1"
proof -
  have h1: "writable empty_file" by (simp add: empty_file_def)
  have h2: "lower (strip ''Buy Milk'') = lower (strip '' buy milk'')" by code_simp
  have h3: "\<not> list_ex (\<lambda>e. lower (strip ''Buy Milk'') = lower (strip (task e))) (items empty_file)"
    by (simp add: empty_file_def)
  have h4: "length (items empty_file) = 0" by (simp add: empty_file_def)
  from add_todo_twice [OF h1 h2]
  have c1: "fst (add_todo '' buy milk'' (snd (add_todo ''Buy Milk'' empty_file)))
       = ''Task already exists.''"
    and c2: "length (items (snd (add_todo '' buy milk'' (snd (add_todo ''Buy Milk'' empty_file)))))
       = length (items empty_file) +
           (if list_ex (\<lambda>e. lower (strip ''Buy Milk'') = lower (strip (task e))) (items empty_file)
            then 0 else 1)"
    by blast+
  from c2 h3 h4
  have c3: "length (items (snd (add_todo '' buy milk'' (snd (add_todo ''Buy Milk'' empty_file)))))
       = 1"
    by simp
  from h1 h2 c1 c3 show ?thesis by blast
qed

text \<open>
  Claim C6 as stated fails where the task is in the list before the first call (the list
  does not grow), and where the file cannot be written (the second call adds again and
  the list does not grow).
\<close>

theorem add_todo_twice_counterexample:
  "lower (strip ''Buy Milk'') = lower (strip '' buy milk'')
   \<and> length (items (snd (add_todo '' buy milk'' (snd (add_todo ''Buy Milk'' milk_file)))))
       = length (items milk_file)
   \<and> length (items (snd (add_todo '' buy milk'' (snd (add_todo ''Buy Milk'' milk_file)))))
       \<noteq> length (items milk_file) + 1
   \<and> fst (add_todo '' buy milk'' (snd (add_todo ''Buy Milk'' readonly_file)))
       \<noteq> ''Task already exists.''
   \<and> length (items (snd (add_todo '' buy milk'' (snd (add_todo ''Buy Milk'' readonly_file)))))
       = length (items readonly_file)"
  by code_simp

section \<open>Properties of the string operations\<close>

lemma startswith_append: "startswith s p \<longleftrightarrow> (\<exists>r. s = p @ r)"
proof
  assume "startswith s p"
  then have "s = p @ drop (length p) s"
    by (metis startswith_def append_take_drop_id)
  then show "\<exists>r. s = p @ r" ..
next
  assume "\<exists>r. s = p @ r"
  then show "startswith s p" by (auto simp: startswith_def)
qed

lemma contains_append: "contains sub s \<longleftrightarrow> (\<exists>p r. s = p @ sub @ r)"
proof (induction s)
  case Nil
  then show ?case by auto
next
  case (Cons c cs)
  show ?case
  proof
    assume "contains sub (c # cs)"
    then consider "startswith (c # cs) sub" | "contains sub cs" by auto
    then show "\<exists>p r. c # cs = p @ sub @ r"
    proof cases
      case 1
      then obtain r where "c # cs = sub @ r" by (auto simp: startswith_append)
      then have "c # cs = [] @ sub @ r" by simp
      then show ?thesis by blast
    next
      case 2
      with Cons.IH obtain p r where "cs = p @ sub @ r" by blast
      then have "c # cs = (c # p) @ sub @ r" by simp
      then show ?thesis by blast
    qed
  next
    assume "\<exists>p r. c # cs = p @ sub @ r"
    then obtain p r where pr: "c # cs = p @ sub @ r" by blast
    show "contains sub (c # cs)"
    proof (cases p)
      case Nil
      with pr have "startswith (c # cs) sub" by (auto simp: startswith_append)
      then show ?thesis by simp
    next
      case (Cons a p')
      with pr have "cs = p' @ sub @ r" by simp
      with Cons.IH have "contains sub cs" by blast
      then show ?thesis by simp
    qed
  qed
qed

lemma split_from_nonempty: "split_from sep acc s \<noteq> []"
  by (induction sep acc s rule: split_from.induct) auto

lemma split_from_last:
  "sep \<noteq> [] \<Longrightarrow>
     (if contains sep s
      then (\<exists>p r. s = p @ sep @ r \<and> last (split_from sep acc s) = r \<and> \<not> contains sep r)
      else split_from sep acc s = [rev acc @ s])"
proof (induction sep acc s rule: split_from.induct)
  case (1 sep acc)
  then show ?case by simp
next
  case (2 sep acc c cs)
  show ?case
  proof (cases "startswith (c # cs) sep")
    case True
    let ?rest = "drop (length sep) (c # cs)"
    from True have dec: "c # cs = sep @ ?rest"
      by (metis startswith_def append_take_drop_id)
    have sp: "split_from sep acc (c # cs) = rev acc # split_from sep [] ?rest"
      using True "2.prems" by simp
    have la: "last (split_from sep acc (c # cs)) = last (split_from sep [] ?rest)"
      using sp split_from_nonempty by simp
    have cont: "contains sep (c # cs)" using True by simp
    from "2.IH"(1) True "2.prems"
    have ih: "if contains sep ?rest
      then (\<exists>p r. ?rest = p @ sep @ r \<and> last (split_from sep [] ?rest) = r \<and> \<not> contains sep r)
      else split_from sep [] ?rest = [rev [] @ ?rest]"
      by simp
    have "\<exists>p r. c # cs = p @ sep @ r \<and> last (split_from sep acc (c # cs)) = r \<and> \<not> contains sep r"
    proof (cases "contains sep ?rest")
      case True
      with ih obtain p r where pr: "?rest = p @ sep @ r" "last (split_from sep [] ?rest) = r"
        "\<not> contains sep r" by auto
      from dec pr(1) have "c # cs = (sep @ p) @ sep @ r" by simp
      with pr la show ?thesis by metis
    next
      case False
      with ih have "last (split_from sep [] ?rest) = ?rest" by simp
      moreover from dec have "c # cs = [] @ sep @ ?rest" by simp
      ultimately show ?thesis using False la by metis
    qed
    with cont show ?thesis by simp
  next
    case False
    have sp: "split_from sep acc (c # cs) = split_from sep (c # acc) cs"
      using False by simp
    have ceq: "contains sep (c # cs) = contains sep cs" using False by simp
    from "2.IH"(2) False "2.prems"
    have ih: "if contains sep cs
      then (\<exists>p r. cs = p @ sep @ r \<and> last (split_from sep (c # acc) cs) = r \<and> \<not> contains sep r)
      else split_from sep (c # acc) cs = [rev (c # acc) @ cs]"
      by simp
    show ?thesis
    proof (cases "contains sep cs")
      case True
      with ih obtain p r where pr: "cs = p @ sep @ r" "last (split_from sep (c # acc) cs) = r"
        "\<not> contains sep r" by auto
      from pr(1) have "c # cs = (c # p) @ sep @ r" by simp
      with pr sp have "\<exists>p r. c # cs = p @ sep @ r \<and> last (split_from sep acc (c # cs)) = r \<and> \<not> contains sep r"
        by metis
      with True ceq show ?thesis by simp
    next
      case False
      with ih sp ceq show ?thesis by simp
    qed
  qed
qed

lemma borderless_no_overlap:
  assumes bl: "borderless t" and nr: "\<not> contains t r"
  shows "1 \<le> k \<Longrightarrow> \<not> contains t (drop k t @ r)"
proof (induction "length t - k" arbitrary: k)
  case 0
  then have "drop k t = []" by simp
  with nr show ?case by simp
next
  case (Suc n)
  then have klt: "k < length t" by simp
  then obtain c where dk: "drop k t = c # drop (Suc k) t"
    by (metis Cons_nth_drop_Suc)
  have nostart: "\<not> startswith (drop k t @ r) t"
  proof
    assume "startswith (drop k t @ r) t"
    then have "take (length t) (drop k t @ r) = t" by (simp add: startswith_def)
    then have "take (length t - k) (take (length t) (drop k t @ r)) = take (length t - k) t"
      by simp
    then have "drop k t = take (length t - k) t"
      by (simp add: min_def)
    then have "startswith t (drop k t)" by (simp add: startswith_def)
    moreover from bl Suc.prems klt have "\<not> startswith t (drop k t)"
      by (simp add: borderless_def list_all_iff)
    ultimately show False by simp
  qed
  from Suc.hyps(2) have "n = length t - Suc k" by simp
  from Suc.hyps(1)[OF this] have "\<not> contains t (drop (Suc k) t @ r)" by simp
  with nostart dk show ?case by simp
qed

lemma contains_drop: "startswith (drop k s) sub \<Longrightarrow> contains sub s"
proof -
  assume "startswith (drop k s) sub"
  then obtain r where "drop k s = sub @ r" by (auto simp: startswith_append)
  then have "s = take k s @ sub @ r" by (metis append_take_drop_id)
  then show ?thesis unfolding contains_append by blast
qed

lemma last_index_upto_found:
  "occurs_at sub s i \<Longrightarrow> i \<le> n \<Longrightarrow> (\<forall>j. i < j \<and> j \<le> n \<longrightarrow> \<not> occurs_at sub s j) \<Longrightarrow>
     last_index_upto sub s n = Some i"
proof (induction n)
  case 0
  then show ?case by simp
next
  case (Suc n)
  show ?case
  proof (cases "i = Suc n")
    case True
    with Suc.prems show ?thesis by simp
  next
    case False
    with Suc.prems have "i \<le> n" and "\<not> occurs_at sub s (Suc n)" by auto
    with Suc show ?thesis by simp
  qed
qed

lemma last_occurrence:
  assumes ne: "t \<noteq> []" and bl: "borderless t" and nr: "\<not> contains t r"
  shows "text_after_last t (p @ t @ r) = Some r"
proof -
  let ?s = "p @ t @ r"
  have occ: "occurs_at t ?s (length p)" by (simp add: occurs_at_def)
  have later: "\<forall>j. length p < j \<and> j \<le> length ?s \<longrightarrow> \<not> occurs_at t ?s j"
  proof (intro allI impI notI)
    fix j assume j: "length p < j \<and> j \<le> length ?s" and o: "occurs_at t ?s j"
    from ne obtain c where tc: "t = c # tl t" by (cases t) auto
    from j obtain d where d: "j = length p + Suc d" by (metis less_iff_Suc_add add_Suc_right)
    have "drop j ?s = drop (Suc d) (t @ r)" using d by simp
    also have "\<dots> = drop d (tl t @ r)" using tc by (metis append_Cons drop_Suc_Cons)
    finally have eq: "drop j ?s = drop d (tl t @ r)" .
    from o have "take (length t) (drop j ?s) = t" unfolding occurs_at_def by blast
    then have "take (length t) (drop d (tl t @ r)) = t" unfolding eq .
    then have "startswith (drop d (tl t @ r)) t" unfolding startswith_def .
    then have "contains t (tl t @ r)" by (rule contains_drop)
    moreover have "\<not> contains t (drop 1 t @ r)" using borderless_no_overlap[OF bl nr] by simp
    ultimately show False by (simp add: drop_Suc)
  qed
  have "rfind ?s t = Some (length p)"
    unfolding rfind_def by (rule last_index_upto_found[OF occ _ later]) simp
  then show ?thesis by (simp add: text_after_last_def)
qed

lemma triggers_borderless: "list_all (\<lambda>t. t \<noteq> [] \<and> borderless t) task_triggers"
  by code_simp

section \<open>Properties of the pipeline\<close>

text \<open>
  Claim C5. When the lower-cased, trimmed input starts with one of the preference
  phrasings and does not end with a question mark, processing it returns the fixed
  acknowledgment, and the only call that leaves the process is one write of the input,
  trimmed and tagged "User preference: ", to the long-term memory: no language-model
  call is made. The task file is not touched.
\<close>

theorem preference_capture:
  assumes "list_ex (startswith (strip (lower user_input)))
             [''i like'', ''i love'', ''i prefer'', ''my favorite'', ''remember'']"
    and "\<not> endswith (strip (lower user_input)) ''?''"
  shows "fst (process_single_intent e user_input s) = Inr (''Got it. I'' @ [CHR 0x27] @ ''ll remember that.'')
       \<and> events (snd (process_single_intent e user_input s))
           = events s @ [MemoryAdd (''User preference: '' @ strip user_input)]
       \<and> todo_json (snd (process_single_intent e user_input s)) = todo_json s
       \<and> internal_log (snd (process_single_intent e user_input s))
           = internal_log s @ [''Preference stored deterministically.'']"
proof -
  from assms have "preference_phrasing (strip (lower user_input))"
    by (simp add: preference_phrasing_def)
  then show ?thesis
    by (simp add: process_single_intent_def Let_def respond_def append_turn_def add_memory_def
        log_append_def acknowledgment_def quote_def)
qed

theorem preference_capture_witness:
  "fst (process_single_intent demo_env ''I like green tea'' (init_agent demo_config empty_file))
     = Inr (''Got it. I'' @ [CHR 0x27] @ ''ll remember that.'')
   \<and> events (snd (process_single_intent demo_env ''I like green tea''
        (init_agent demo_config empty_file)))
       = [MemoryAdd ''User preference: I like green tea'']"
proof -
  have h1: "list_ex (startswith (strip (lower ''I like green tea'')))
             [''i like'', ''i love'', ''i prefer'', ''my favorite'', ''remember'']"
    by code_simp
  have h2: "\<not> endswith (strip (lower ''I like green tea'')) ''?''"
    by code_simp
  have h3: "strip ''I like green tea'' = ''I like green tea''"
    by code_simp
  have h4: "events (init_agent demo_config empty_file) = []"
    by (simp add: init_agent_def)
  from preference_capture [OF h1 h2, of demo_env "init_agent demo_config empty_file"] h3 h4
  show ?thesis by simp
qed

lemma task_creation_none:
  "\<not> list_ex (\<lambda>t. contains t user_lower) triggers \<Longrightarrow>
     task_creation triggers user_lower s = None"
  by (induction triggers) auto

text \<open>
  Claim C7. An input that no rule before rule 5 takes, whose lower-cased, trimmed form
  starts with a knowledge-question prefix and contains no search-intent keyword, is
  answered by one plain model call on two messages, the persona ("You are " and the agent
  role) and the input as typed. That call is the only call that leaves the process: the
  long-term memory is not queried and no tool runs; the task file stays as it is.
\<close>

theorem knowledge_guard:
  assumes "\<not> preference_phrasing (strip (lower user_input))"
    and "\<not> list_ex (\<lambda>k. contains k (strip (lower user_input))) [''i did'', ''i finished'', ''completed'']"
    and "\<not> list_ex (\<lambda>t. contains t (strip (lower user_input)))
            [''i need to'', ''i have to'', ''remind me to'']"
    and "\<not> contains ''today'' (strip (lower user_input))"
    and "\<not> contains ''current date'' (strip (lower user_input))"
    and "list_ex (startswith (strip (lower user_input)))
            [''what is'', ''who is'', ''define'', ''explain'', ''why'']"
    and "\<not> list_ex (\<lambda>k. contains k (strip (lower user_input)))
            [''search'', ''latest'', ''recent'', ''find'', ''trend'', ''news'']"
  shows "fst (process_single_intent e user_input s)
           = Inr (chat_plain e (events s)
                   [\<lparr>role = System, content = ''You are '' @ agent_role (config s) @ ''.''\<rparr>,
                    \<lparr>role = User, content = user_input\<rparr>])
       \<and> events (snd (process_single_intent e user_input s))
           = events s @
               [ModelPlain
                  [\<lparr>role = System, content = ''You are '' @ agent_role (config s) @ ''.''\<rparr>,
                   \<lparr>role = User, content = user_input\<rparr>]]
       \<and> todo_json (snd (process_single_intent e user_input s)) = todo_json s"
proof -
  let ?ul = "strip (lower user_input)"
  let ?s1 = "append_turn \<lparr>role = User, content = user_input\<rparr> s"
  from assms(3) have tc: "task_creation task_triggers ?ul ?s1 = None"
    by (intro task_creation_none) (simp add: task_triggers_def)
  from assms(2) have r2: "\<not> list_ex (\<lambda>k. contains k ?ul) completion_keywords"
    by (simp add: completion_keywords_def)
  from assms(6) have r5: "list_ex (\<lambda>p. startswith ?ul p) knowledge_prefixes"
    by (simp add: knowledge_prefixes_def)
  from assms(7) have r5': "\<not> list_ex (\<lambda>k. contains k ?ul) search_intent_keywords"
    by (simp add: search_intent_keywords_def)
  have "process_single_intent e user_input s =
      (case call_model_plain e (knowledge_messages (config ?s1) user_input)
              (log_append ''Knowledge guard triggered.'' ?s1) of
         (response, s') \<Rightarrow> respond response s')"
    unfolding process_single_intent_def Let_def
    using assms(1) r2 tc assms(4) assms(5) r5 r5' by (simp add: log_append_def)
  then show ?thesis
    by (simp add: call_model_plain_def respond_def append_turn_def log_append_def
        knowledge_messages_def Let_def)
qed

theorem knowledge_guard_witness:
  "fst (process_single_intent demo_env ''What is photosynthesis'' (init_agent demo_config milk_file))
     = Inr ''Plain answer.''
   \<and> events (snd (process_single_intent demo_env ''What is photosynthesis''
        (init_agent demo_config milk_file)))
       = [ModelPlain [\<lparr>role = System, content = ''You are Autonomous AI Agent.''\<rparr>,
                      \<lparr>role = User, content = ''What is photosynthesis''\<rparr>]]
   \<and> todo_json (snd (process_single_intent demo_env ''What is photosynthesis''
        (init_agent demo_config milk_file))) = milk_file"
proof -
  have h1: "\<not> preference_phrasing (strip (lower ''What is photosynthesis''))"
    by code_simp
  have h2: "\<not> list_ex (\<lambda>k. contains k (strip (lower ''What is photosynthesis'')))
            [''i did'', ''i finished'', ''completed'']"
    by code_simp
  have h3: "\<not> list_ex (\<lambda>t. contains t (strip (lower ''What is photosynthesis'')))
            [''i need to'', ''i have to'', ''remind me to'']"
    by code_simp
  have h4: "\<not> contains ''today'' (strip (lower ''What is photosynthesis''))"
    by code_simp
  have h5: "\<not> contains ''current date'' (strip (lower ''What is photosynthesis''))"
    by code_simp
  have h6: "list_ex (startswith (strip (lower ''What is photosynthesis'')))
            [''what is'', ''who is'', ''define'', ''explain'', ''why'']"
    by code_simp
  have h7: "\<not> list_ex (\<lambda>k. contains k (strip (lower ''What is photosynthesis'')))
            [''search'', ''latest'', ''recent'', ''find'', ''trend'', ''news'']"
    by code_simp
  from knowledge_guard [OF h1 h2 h3 h4 h5 h6 h7, of demo_env "init_agent demo_config milk_file"]
  show ?thesis
    by (simp add: init_agent_def demo_env_def demo_config_def)
qed

lemma task_creation_find:
  "find (\<lambda>t. contains t user_lower) triggers = Some trigger \<Longrightarrow> trigger \<noteq> [] \<Longrightarrow>
     task_creation triggers user_lower s =
       Some (case add_todo_tool (strip (last (split_from trigger [] user_lower))) s of
               (response, s') \<Rightarrow> respond response s')"
  by (induction triggers) (auto simp: py_split_def Let_def split: if_splits prod.splits)

lemma find_trigger:
  assumes "find (\<lambda>t. contains t user_lower) task_triggers = Some trigger"
  shows "trigger \<noteq> []" and "borderless trigger" and "contains trigger user_lower"
proof -
  from assms have mem: "trigger \<in> set task_triggers" and c: "contains trigger user_lower"
    by (auto simp: find_Some_iff)
  from mem triggers_borderless show "trigger \<noteq> []" and "borderless trigger"
    by (auto simp: list_all_iff)
  from c show "contains trigger user_lower" .
qed

lemma split_last_is_text_after_last:
  assumes "find (\<lambda>t. contains t user_lower) task_triggers = Some trigger"
  shows "text_after_last trigger user_lower = Some (last (split_from trigger [] user_lower))"
proof -
  note t = find_trigger[OF assms]
  from split_from_last[OF t(1), of user_lower "[]"] t(3)
  obtain p r where pr: "user_lower = p @ trigger @ r"
    "last (split_from trigger [] user_lower) = r" "\<not> contains trigger r"
    by auto
  from last_occurrence[OF t(1) t(2) pr(3), of p] pr(1,2) show ?thesis by simp
qed

lemma rule3_process:
  assumes r1: "\<not> preference_phrasing (strip (lower user_input))"
    and r2: "\<not> list_ex (\<lambda>k. contains k (strip (lower user_input))) completion_keywords"
    and f: "find (\<lambda>t. contains t (strip (lower user_input))) task_triggers = Some trigger"
  shows "process_single_intent e user_input s =
     (case add_todo_tool (strip (last (split_from trigger [] (strip (lower user_input)))))
             (append_turn \<lparr>role = User, content = user_input\<rparr> s) of
        (response, s') \<Rightarrow> respond response s')"
  unfolding process_single_intent_def Let_def
  using r1 r2 task_creation_find[OF f find_trigger(1)[OF f]] by simp

text \<open>
  Claim C8. For an input that rules 1 and 2 do not take and that contains a task-creation
  trigger, the trigger used is the first of the configured list that occurs in the
  lower-cased, trimmed input; the text passed to \<open>add_todo\<close> is the trimmed part of that
  input behind the last occurrence of the trigger; the response is the text \<open>add_todo\<close>
  returns, the task file is as \<open>add_todo\<close> leaves it, and no call leaves the process.
\<close>

theorem task_creation_rule:
  assumes "\<not> preference_phrasing (strip (lower user_input))"
    and "\<not> list_ex (\<lambda>k. contains k (strip (lower user_input)))
            [''i did'', ''i finished'', ''completed'']"
    and "find (\<lambda>t. contains t (strip (lower user_input)))
            [''i need to'', ''i have to'', ''remind me to''] = Some trigger"
  shows "\<exists>rest. text_after_last trigger (strip (lower user_input)) = Some rest
       \<and> fst (process_single_intent e user_input s)
           = Inr (fst (add_todo (strip rest) (todo_json s)))
       \<and> todo_json (snd (process_single_intent e user_input s))
           = snd (add_todo (strip rest) (todo_json s))
       \<and> events (snd (process_single_intent e user_input s)) = events s"
proof -
  let ?ul = "strip (lower user_input)"
  let ?rest = "last (split_from trigger [] ?ul)"
  from assms(2) have r2: "\<not> list_ex (\<lambda>k. contains k ?ul) completion_keywords"
    by (simp add: completion_keywords_def)
  from assms(3) have f: "find (\<lambda>t. contains t ?ul) task_triggers = Some trigger"
    by (simp add: task_triggers_def)
  have a: "text_after_last trigger ?ul = Some ?rest"
    by (rule split_last_is_text_after_last[OF f])
  obtain r g where ad: "add_todo (strip ?rest) (todo_json s) = (r, g)"
    by (cases "add_todo (strip ?rest) (todo_json s)")
  have "fst (process_single_intent e user_input s) = Inr r
      \<and> todo_json (snd (process_single_intent e user_input s)) = g
      \<and> events (snd (process_single_intent e user_input s)) = events s"
    using ad
    by (simp add: rule3_process[OF assms(1) r2 f] add_todo_tool_def respond_def
        append_turn_def Let_def)
  with a ad show ?thesis by simp
qed








theorem task_creation_rule_witness:
  "find (\<lambda>t. contains t (strip (lower ''Remind me to call, then I need to  Buy Milk '')))
       [''i need to'', ''i have to'', ''remind me to''] = Some ''i need to''
   \<and> text_after_last ''i need to'' (strip (lower ''Remind me to call, then I need to  Buy Milk ''))
       = Some ''  buy milk''
   \<and> fst (process_single_intent demo_env ''Remind me to call, then I need to  Buy Milk ''
          (init_agent demo_config empty_file))
       = Inr (fst (add_todo ''buy milk'' empty_file))
   \<and> fst (add_todo ''buy milk'' empty_file)
       = ''Task '' @ [CHR 0x27] @ ''buy milk'' @ [CHR 0x27] @ '' added.''"
proof -
  let ?u = "''Remind me to call, then I need to  Buy Milk ''"
  have h1: "\<not> preference_phrasing (strip (lower ?u))"
    by code_simp
  have h2: "\<not> list_ex (\<lambda>k. contains k (strip (lower ?u))) [''i did'', ''i finished'', ''completed'']"
    by code_simp
  have h3: "find (\<lambda>t. contains t (strip (lower ?u)))
       [''i need to'', ''i have to'', ''remind me to''] = Some ''i need to''"
    by code_simp
  have ta: "text_after_last ''i need to'' (strip (lower ?u)) = Some ''  buy milk''"
    by code_simp
  have st: "strip ''  buy milk'' = ''buy milk''"
    by code_simp
  have ad: "fst (add_todo ''buy milk'' empty_file)
       = ''Task '' @ [CHR 0x27] @ ''buy milk'' @ [CHR 0x27] @ '' added.''"
    by code_simp
  from task_creation_rule [OF h1 h2 h3, of demo_env "init_agent demo_config empty_file"]
  obtain rest where r: "text_after_last ''i need to'' (strip (lower ?u)) = Some rest"
    "fst (process_single_intent demo_env ?u (init_agent demo_config empty_file))
       = Inr (fst (add_todo (strip rest) (todo_json (init_agent demo_config empty_file))))"
    by blast
  from r(1) ta have "rest = ''  buy milk''" by simp
  with r(2) st have "fst (process_single_intent demo_env ?u (init_agent demo_config empty_file))
       = Inr (fst (add_todo ''buy milk'' empty_file))"
    by (simp add: init_agent_def)
  with h3 ta ad show ?thesis by blast
qed




lemma reaches_reasoning_cycle:
  assumes "no_rule_matches (strip (lower user_input))"
  shows "process_single_intent e user_input s =
           reasoning_cycle e user_input (append_turn \<lparr>role = User, content = user_input\<rparr> s)"
proof -
  from assms have "task_creation task_triggers (strip (lower user_input))
      (append_turn \<lparr>role = User, content = user_input\<rparr> s) = None"
    by (intro task_creation_none) (simp add: no_rule_matches_def)
  with assms show ?thesis
    unfolding process_single_intent_def Let_def no_rule_matches_def by auto
qed

text \<open>
  Claim C4, as amended. When no rule takes the input and the structured model call
  returns a text that \<open>json.loads\<close> rejects, as it does the brace-delimited substring if
  there is one, the response is the answer of one plain model call on the conversation
  window (the turns kept after the user turn was appended). The calls that leave the
  process are the memory query, the structured call and that plain call: no tool runs,
  nothing is written to the long-term memory and the task file stays as it is. The
  internal log gains the two retrieval lines and nothing else, so no line records the
  parse failure.
\<close>

theorem unparsable_fallback:
  fixes e :: env and user_input :: string and s :: state
  defines "s1 \<equiv> append_turn \<lparr>role = User, content = user_input\<rparr> s"
  defines "retrieved \<equiv> fst (memory_query e user_input 2 s1)"
  defines "messages \<equiv>
     \<lparr>role = System, content = system_prompt (config s) (repr_docs e (documents retrieved))\<rparr>
       # short_term s1"
  assumes reach: "no_rule_matches (strip (lower user_input))"
    and answer: "chat_json e (events s @ [MemoryQuery user_input 2]) messages = Inr text"
    and direct: "json_loads e text = None"
    and braces: "brace_match text = None
                 \<or> (\<exists>m. brace_match text = Some m \<and> json_loads e m = None)"
  shows "fst (process_single_intent e user_input s)
           = Inr (chat_plain e (events s @ [MemoryQuery user_input 2, ModelJson messages])
                   (short_term s1))
       \<and> events (snd (process_single_intent e user_input s))
           = events s @ [MemoryQuery user_input 2, ModelJson messages, ModelPlain (short_term s1)]
       \<and> todo_json (snd (process_single_intent e user_input s)) = todo_json s
       \<and> internal_log (snd (process_single_intent e user_input s))
           = internal_log s @
               [''Retrieved memory: '' @ repr_docs e (documents retrieved),
                ''Distances: '' @ repr_distances e (get_or (distances retrieved) [])]"
proof -
  have sp: "safe_parse e text = None"
    using direct braces by (auto simp: safe_parse_def)
  have ev: "events s1 = events s" and cf: "config s1 = config s"
    and tj: "todo_json s1 = todo_json s" and il: "internal_log s1 = internal_log s"
    by (simp_all add: s1_def append_turn_def Let_def)
  obtain r where r: "retrieved = r" by simp
  have mq: "memory_query e user_input 2 s1
      = (r, s1\<lparr>events := events s @ [MemoryQuery user_input 2]\<rparr>)"
    using r unfolding retrieved_def
    by (auto simp: memory_query_def Let_def ev split: option.splits)
  have pr: "process_single_intent e user_input s = reasoning_cycle e user_input s1"
    unfolding s1_def by (rule reaches_reasoning_cycle[OF reach])
  have aw: "chat_json e (events s @ [MemoryQuery user_input 2])
      (\<lparr>role = System, content = system_prompt (config s) (repr_docs e (documents r))\<rparr>
         # short_term s1) = Inr text"
    using answer unfolding messages_def r .
  show ?thesis
    unfolding pr messages_def r
    by (simp add: reasoning_cycle_def mq Let_def log_append_def call_model_json_def cf il tj
        aw sp falsy_def plain_fallback_def call_model_plain_def respond_def append_turn_def)
qed

theorem unparsable_fallback_witness:
  "no_rule_matches (strip (lower ''hello there''))
   \<and> brace_match ''not {json} at all'' = Some ''{json}''
   \<and> fst (process_single_intent demo_env ''hello there'' (init_agent demo_config milk_file))
       = Inr ''Plain answer.''
   \<and> events (snd (process_single_intent demo_env ''hello there''
          (init_agent demo_config milk_file)))
       = [MemoryQuery ''hello there'' 2,
          ModelJson [\<lparr>role = System, content = system_prompt demo_config ''[]''\<rparr>,
                     \<lparr>role = User, content = ''hello there''\<rparr>],
          ModelPlain [\<lparr>role = User, content = ''hello there''\<rparr>]]
   \<and> todo_json (snd (process_single_intent demo_env ''hello there''
          (init_agent demo_config milk_file))) = milk_file"
proof -
  let ?s = "init_agent demo_config milk_file"
  let ?s1 = "append_turn \<lparr>role = User, content = ''hello there''\<rparr> ?s"
  let ?messages = "\<lparr>role = System,
       content = system_prompt (config ?s)
         (repr_docs demo_env (documents (fst (memory_query demo_env ''hello there'' 2 ?s1))))\<rparr>
     # short_term ?s1"
  have h1: "no_rule_matches (strip (lower ''hello there''))"
    by code_simp
  have h2: "chat_json demo_env (events ?s @ [MemoryQuery ''hello there'' 2]) ?messages
      = Inr ''not {json} at all''"
    by (simp add: demo_env_def)
  have h3: "json_loads demo_env ''not {json} at all'' = None"
    by (simp add: demo_env_def)
  have bm: "brace_match ''not {json} at all'' = Some ''{json}''"
    by code_simp
  have h4: "brace_match ''not {json} at all'' = None
      \<or> (\<exists>m. brace_match ''not {json} at all'' = Some m \<and> json_loads demo_env m = None)"
    using bm by (simp add: demo_env_def)
  have w: "short_term ?s1 = [\<lparr>role = User, content = ''hello there''\<rparr>]"
    by (simp add: init_agent_def append_turn_def Let_def max_context_def)
  have ev0: "events ?s = []"
    by (simp add: init_agent_def)
  have m: "?messages = [\<lparr>role = System, content = system_prompt demo_config ''[]''\<rparr>,
                     \<lparr>role = User, content = ''hello there''\<rparr>]"
    apply (simp only: w)
    apply (simp add: init_agent_def demo_env_def memory_query_def Let_def)
    done
  from unparsable_fallback [OF h1 h2 h3 h4]
  have c: "fst (process_single_intent demo_env ''hello there'' ?s)
       = Inr (chat_plain demo_env (events ?s @ [MemoryQuery ''hello there'' 2, ModelJson ?messages])
               (short_term ?s1))"
    "events (snd (process_single_intent demo_env ''hello there'' ?s))
       = events ?s @ [MemoryQuery ''hello there'' 2, ModelJson ?messages, ModelPlain (short_term ?s1)]"
    "todo_json (snd (process_single_intent demo_env ''hello there'' ?s)) = todo_json ?s"
    by blast+
  have c1: "fst (process_single_intent demo_env ''hello there'' ?s) = Inr ''Plain answer.''"
    unfolding c(1) by (simp add: demo_env_def)
  have c2: "events (snd (process_single_intent demo_env ''hello there'' ?s))
       = [MemoryQuery ''hello there'' 2,
          ModelJson [\<lparr>role = System, content = system_prompt demo_config ''[]''\<rparr>,
                     \<lparr>role = User, content = ''hello there''\<rparr>],
          ModelPlain [\<lparr>role = User, content = ''hello there''\<rparr>]]"
    apply (simp only: c(2) m)
    apply (simp only: w ev0 append_Nil)
    done
  have c3: "todo_json (snd (process_single_intent demo_env ''hello there'' ?s)) = milk_file"
    unfolding c(3) by (simp add: init_agent_def)
  from h1 bm c1 c2 c3 show ?thesis by blast
qed

text \<open>
  Claim C4 as stated fails in its last part: after an unparsable answer the internal log
  holds the two retrieval lines only.
\<close>

theorem unparsable_fallback_counterexample:
  "chat_json demo_env [MemoryQuery ''hello there'' 2]
       [\<lparr>role = System, content = system_prompt demo_config ''[]''\<rparr>,
        \<lparr>role = User, content = ''hello there''\<rparr>]
     = Inr ''not {json} at all''
   \<and> safe_parse demo_env ''not {json} at all'' = None
   \<and> fst (process_single_intent demo_env ''hello there'' (init_agent demo_config empty_file))
       = Inr ''Plain answer.''
   \<and> internal_log (snd (process_single_intent demo_env ''hello there''
          (init_agent demo_config empty_file)))
       = [''Retrieved memory: []'', ''Distances: []'']"
  by code_simp

lemma reasoning_cycle_decision:
  assumes "chat_json e (events s @ [MemoryQuery user_input 2])
             (\<lparr>role = System,
               content = system_prompt (config s)
                 (repr_docs e (documents (fst (memory_query e user_input 2 s))))\<rparr>
              # short_term s) = Inr text"
    and "safe_parse e text = Some (JObject d)"
    and "d \<noteq> empty_object"
  shows "reasoning_cycle e user_input s =
           act_on_decision e d
             (s\<lparr>internal_log := internal_log s @
                  [''Retrieved memory: ''
                     @ repr_docs e (documents (fst (memory_query e user_input 2 s))),
                   ''Distances: ''
                     @ repr_distances e
                         (get_or (distances (fst (memory_query e user_input 2 s))) [])],
                events := events s @
                  [MemoryQuery user_input 2,
                   ModelJson
                     (\<lparr>role = System,
                       content = system_prompt (config s)
                         (repr_docs e (documents (fst (memory_query e user_input 2 s))))\<rparr>
                      # short_term s)]\<rparr>)"
proof -
  obtain r where r: "fst (memory_query e user_input 2 s) = r" by simp
  have mq: "memory_query e user_input 2 s
      = (r, s\<lparr>events := events s @ [MemoryQuery user_input 2]\<rparr>)"
    using r by (auto simp: memory_query_def Let_def split: option.splits)
  have aw: "chat_json e (events s @ [MemoryQuery user_input 2])
      (\<lparr>role = System, content = system_prompt (config s) (repr_docs e (documents r))\<rparr>
         # short_term s) = Inr text"
    using assms(1) unfolding r .
  show ?thesis
    unfolding r
    by (simp add: reasoning_cycle_def mq Let_def log_append_def call_model_json_def aw
        assms(2) assms(3) falsy_def)
qed

lemma act_on_decision_tool:
  assumes act: "d_action d = Some action" and tool: "action \<noteq> ''none''"
    and inp: "action_input = get_or (d_action_input d) []"
    and th: "thought = get_or (d_thought d) []"
  shows "\<exists>obs1 s1 ans1 s2 obs2 s4 ans2 s5.
            execute_tool e action action_input (log_append (''Thought: '' @ thought) s)
              = (obs1, s1)
          \<and> call_model_plain e (second_messages obs1) s1 = (ans1, s2)
          \<and> execute_tool e action action_input
               (log_append (''Thought: '' @ thought)
                  (if ans1 = []
                   then snd (call_model_plain e (short_term s2)
                          (log_append
                             ''Final answer missing from JSON. Falling back to plain model.''
                             s2))
                   else s2))
              = (obs2, s4)
          \<and> call_model_plain e (second_messages obs2) s4 = (ans2, s5)
          \<and> (\<forall>other. act_on_decision e (d\<lparr>d_final_answer := other\<rparr>) s
                = (Inr ans2,
                   append_turn \<lparr>role = Assistant, content = ans2\<rparr>
                     (if get_or (d_save_memory d) False \<and> get_or (d_memory_content d) [] \<noteq> []
                      then log_append
                             (''Memory saved by LLM: '' @ get_or (d_memory_content d) [])
                             (add_memory (get_or (d_memory_content d) []) s5)
                      else s5)))"
proof -
  let ?fallen = "''Final answer missing from JSON. Falling back to plain model.''"
  let ?s0 = "log_append (''Thought: '' @ thought) s"
  obtain obs1 s1 where e1: "execute_tool e action action_input ?s0 = (obs1, s1)"
    by (cases "execute_tool e action action_input ?s0")
  obtain ans1 s2 where c1: "call_model_plain e (second_messages obs1) s1 = (ans1, s2)"
    by (cases "call_model_plain e (second_messages obs1) s1")
  let ?s3 = "if ans1 = []
             then snd (call_model_plain e (short_term s2) (log_append ?fallen s2)) else s2"
  obtain obs2 s4 where e2:
    "execute_tool e action action_input (log_append (''Thought: '' @ thought) ?s3) = (obs2, s4)"
    by (cases "execute_tool e action action_input (log_append (''Thought: '' @ thought) ?s3)")
  obtain ans2 s5 where c2: "call_model_plain e (second_messages obs2) s4 = (ans2, s5)"
    by (cases "call_model_plain e (second_messages obs2) s4")
  have st: "short_term (log_append ?fallen s2) = short_term s2"
    by (simp add: log_append_def)
  have ga: "get_or (d_action d) ''none'' = action"
    using act by (simp add: get_or_def)
  let ?mc = "get_or (d_memory_content d) []"
  let ?s6 = "if get_or (d_save_memory d) False \<and> ?mc \<noteq> []
             then log_append (''Memory saved by LLM: '' @ ?mc) (add_memory ?mc s5) else s5"
  have run: "act_on_decision e d' s = respond ans2 ?s6"
    if "d_action d' = d_action d" "d_action_input d' = d_action_input d"
      "d_thought d' = d_thought d" "d_save_memory d' = d_save_memory d"
      "d_memory_content d' = d_memory_content d" for d'
  proof (cases "ans1 = []")
    case True
    obtain fa sf where fb: "call_model_plain e (short_term s2) (log_append ?fallen s2) = (fa, sf)"
      by (cases "call_model_plain e (short_term s2) (log_append ?fallen s2)")
    from True fb e2 have e2': "execute_tool e action action_input
        (log_append (''Thought: '' @ thought) sf) = (obs2, s4)" by simp
    show ?thesis
      unfolding act_on_decision_def Let_def tool_then_synthesis_def that ga
        inp[symmetric] th[symmetric]
      using tool True by (simp add: e1 c1 st fb e2' c2 del: append_Cons)
  next
    case False
    from False e2 have e2': "execute_tool e action action_input
        (log_append (''Thought: '' @ thought) s2) = (obs2, s4)" by simp
    show ?thesis
      unfolding act_on_decision_def Let_def tool_then_synthesis_def that ga
        inp[symmetric] th[symmetric]
      using tool False by (simp add: e1 c1 e2' c2 del: append_Cons)
  qed
  have all: "\<forall>other. act_on_decision e (d\<lparr>d_final_answer := other\<rparr>) s
      = (Inr ans2, append_turn \<lparr>role = Assistant, content = ans2\<rparr> ?s6)"
  proof
    fix other
    have "act_on_decision e (d\<lparr>d_final_answer := other\<rparr>) s = respond ans2 ?s6"
      by (rule run) simp_all
    then show "act_on_decision e (d\<lparr>d_final_answer := other\<rparr>) s
      = (Inr ans2, append_turn \<lparr>role = Assistant, content = ans2\<rparr> ?s6)"
      by (simp only: respond_def)
  qed
  from e1 c1 e2 c2 all show ?thesis
    by (intro exI[of _ obs1] exI[of _ s1] exI[of _ ans1] exI[of _ s2]
        exI[of _ obs2] exI[of _ s4] exI[of _ ans2] exI[of _ s5] conjI)
qed

text \<open>
  Claim C1. Let no rule take the input, and let the structured model call return a text
  that parses to a non-empty decision whose action is not "none". Then
  \<open>process_single_intent\<close>, after the memory query, the structured call and the first
  "Thought" line of the log, runs the tool with the decision's action and input and makes
  a plain model call on the observation; after the check for an empty answer (which adds
  one plain call on the conversation window when the first synthesis is empty) and the
  second "Thought" line it runs the tool again with the same action and input and makes a
  second plain call on the new observation; only then is the memory saved. The response
  is the answer of that second call. The decision's \<open>final_answer\<close> occurs nowhere in
  what determines the response and the state: they are the same whatever that field holds.
\<close>

theorem tool_block_twice:
  fixes e :: env and user_input :: string and s :: state
  defines "w \<equiv> short_term (append_turn \<lparr>role = User, content = user_input\<rparr> s)"
  defines "retrieved \<equiv>
     fst (memory_query e user_input 2 (append_turn \<lparr>role = User, content = user_input\<rparr> s))"
  defines "messages \<equiv>
     \<lparr>role = System, content = system_prompt (config s) (repr_docs e (documents retrieved))\<rparr>
       # w"
  assumes reach: "no_rule_matches (strip (lower user_input))"
    and answer: "chat_json e (events s @ [MemoryQuery user_input 2]) messages = Inr text"
    and parsed: "safe_parse e text = Some (JObject d)"
    and nonempty: "d \<noteq> empty_object"
    and act: "d_action d = Some action" and tool: "action \<noteq> ''none''"
    and inp: "action_input = get_or (d_action_input d) []"
    and th: "thought = get_or (d_thought d) []"
  shows "\<exists>s0 obs1 s1 ans1 s2 obs2 s4 ans2 s5.
            short_term s0 = w \<and> config s0 = config s \<and> todo_json s0 = todo_json s
          \<and> events s0 = events s @ [MemoryQuery user_input 2, ModelJson messages]
          \<and> internal_log s0 = internal_log s @
               [''Retrieved memory: '' @ repr_docs e (documents retrieved),
                ''Distances: '' @ repr_distances e (get_or (distances retrieved) []),
                ''Thought: '' @ thought]
          \<and> execute_tool e action action_input s0 = (obs1, s1)
          \<and> call_model_plain e (second_messages obs1) s1 = (ans1, s2)
          \<and> execute_tool e action action_input
               (log_append (''Thought: '' @ thought)
                  (if ans1 = []
                   then snd (call_model_plain e (short_term s2)
                          (log_append
                             ''Final answer missing from JSON. Falling back to plain model.''
                             s2))
                   else s2))
              = (obs2, s4)
          \<and> call_model_plain e (second_messages obs2) s4 = (ans2, s5)
          \<and> process_single_intent e user_input s
              = (Inr ans2,
                 append_turn \<lparr>role = Assistant, content = ans2\<rparr>
                   (if get_or (d_save_memory d) False \<and> get_or (d_memory_content d) [] \<noteq> []
                    then log_append
                           (''Memory saved by LLM: '' @ get_or (d_memory_content d) [])
                           (add_memory (get_or (d_memory_content d) []) s5)
                    else s5))"
proof -
  let ?s1 = "append_turn \<lparr>role = User, content = user_input\<rparr> s"
  have ev: "events ?s1 = events s" and cf: "config ?s1 = config s"
    and tj: "todo_json ?s1 = todo_json s" and il: "internal_log ?s1 = internal_log s"
    by (simp_all add: append_turn_def Let_def)
  let ?sj = "?s1\<lparr>internal_log := internal_log ?s1 @
        [''Retrieved memory: '' @ repr_docs e (documents (fst (memory_query e user_input 2 ?s1))),
         ''Distances: ''
           @ repr_distances e (get_or (distances (fst (memory_query e user_input 2 ?s1))) [])],
      events := events ?s1 @
        [MemoryQuery user_input 2,
         ModelJson
           (\<lparr>role = System,
             content = system_prompt (config ?s1)
               (repr_docs e (documents (fst (memory_query e user_input 2 ?s1))))\<rparr>
            # short_term ?s1)]\<rparr>"
  let ?s0 = "log_append (''Thought: '' @ thought) ?sj"
  have aw: "chat_json e (events ?s1 @ [MemoryQuery user_input 2])
      (\<lparr>role = System,
         content = system_prompt (config ?s1)
           (repr_docs e (documents (fst (memory_query e user_input 2 ?s1))))\<rparr>
       # short_term ?s1) = Inr text"
    using answer unfolding messages_def retrieved_def w_def ev cf .
  have pr: "process_single_intent e user_input s = act_on_decision e d ?sj"
    unfolding reaches_reasoning_cycle[OF reach]
    by (rule reasoning_cycle_decision[OF aw parsed nonempty])
  have dd: "d\<lparr>d_final_answer := d_final_answer d\<rparr> = d" by simp
  from act_on_decision_tool[OF act tool inp th, of e ?sj]
  obtain obs1 s1 ans1 s2 obs2 s4 ans2 s5 where
    e1: "execute_tool e action action_input ?s0 = (obs1, s1)"
    and c1: "call_model_plain e (second_messages obs1) s1 = (ans1, s2)"
    and e2: "execute_tool e action action_input
               (log_append (''Thought: '' @ thought)
                  (if ans1 = []
                   then snd (call_model_plain e (short_term s2)
                          (log_append
                             ''Final answer missing from JSON. Falling back to plain model.''
                             s2))
                   else s2))
              = (obs2, s4)"
    and c2: "call_model_plain e (second_messages obs2) s4 = (ans2, s5)"
    and all: "\<forall>other. act_on_decision e (d\<lparr>d_final_answer := other\<rparr>) ?sj
                = (Inr ans2,
                   append_turn \<lparr>role = Assistant, content = ans2\<rparr>
                     (if get_or (d_save_memory d) False \<and> get_or (d_memory_content d) [] \<noteq> []
                      then log_append
                             (''Memory saved by LLM: '' @ get_or (d_memory_content d) [])
                             (add_memory (get_or (d_memory_content d) []) s5)
                      else s5))"
    by blast
  from all have "act_on_decision e (d\<lparr>d_final_answer := d_final_answer d\<rparr>) ?sj
                = (Inr ans2,
                   append_turn \<lparr>role = Assistant, content = ans2\<rparr>
                     (if get_or (d_save_memory d) False \<and> get_or (d_memory_content d) [] \<noteq> []
                      then log_append
                             (''Memory saved by LLM: '' @ get_or (d_memory_content d) [])
                             (add_memory (get_or (d_memory_content d) []) s5)
                      else s5))"
    by (rule spec)
  then have res: "process_single_intent e user_input s
                = (Inr ans2,
                   append_turn \<lparr>role = Assistant, content = ans2\<rparr>
                     (if get_or (d_save_memory d) False \<and> get_or (d_memory_content d) [] \<noteq> []
                      then log_append
                             (''Memory saved by LLM: '' @ get_or (d_memory_content d) [])
                             (add_memory (get_or (d_memory_content d) []) s5)
                      else s5))"
    unfolding pr dd .
  have f1: "short_term ?s0 = w"
    by (simp add: log_append_def w_def)
  have f2: "config ?s0 = config s"
    by (simp add: log_append_def cf)
  have f3: "todo_json ?s0 = todo_json s"
    by (simp add: log_append_def tj)
  have f4: "events ?s0 = events s @ [MemoryQuery user_input 2, ModelJson messages]"
    by (simp add: log_append_def ev cf messages_def retrieved_def w_def)
  have f5: "internal_log ?s0 = internal_log s @
               [''Retrieved memory: '' @ repr_docs e (documents retrieved),
                ''Distances: '' @ repr_distances e (get_or (distances retrieved) []),
                ''Thought: '' @ thought]"
    by (simp add: log_append_def il retrieved_def)
  from f1 f2 f3 f4 f5 e1 c1 e2 c2 res show ?thesis
    by (intro exI[of _ ?s0] exI[of _ obs1] exI[of _ s1] exI[of _ ans1] exI[of _ s2]
        exI[of _ obs2] exI[of _ s4] exI[of _ ans2] exI[of _ s5] conjI)
qed

theorem tool_block_twice_witness:
  "no_rule_matches (strip (lower ''please put Buy Milk on my list''))
   \<and> safe_parse tool_env decision_text = Some (JObject add_decision)
   \<and> d_action add_decision = Some ''add_todo''
   \<and> d_final_answer add_decision = Some (Some ''Done.'')
   \<and> (\<exists>s5. process_single_intent tool_env ''please put Buy Milk on my list''
              (init_agent demo_config empty_file)
            = (Inr ''Observation: Task already exists.'',
               append_turn
                 \<lparr>role = Assistant, content = ''Observation: Task already exists.''\<rparr> s5))
   \<and> items (todo_json (snd (process_single_intent tool_env ''please put Buy Milk on my list''
          (init_agent demo_config empty_file))))
       = [\<lparr>task = ''Buy Milk'', done = False\<rparr>]
   \<and> internal_log (snd (process_single_intent tool_env ''please put Buy Milk on my list''
          (init_agent demo_config empty_file)))
       = [''Retrieved memory: []'',
          ''Distances: []'',
          ''Thought: The user wants a task.'',
          ''Tool selected: add_todo'',
          ''Tool input: Buy Milk'',
          ''Tool observation: Task '' @ [CHR 0x27] @ ''Buy Milk'' @ [CHR 0x27] @ '' added.'',
          ''Thought: The user wants a task.'',
          ''Tool selected: add_todo'',
          ''Tool input: Buy Milk'',
          ''Tool observation: Task already exists.'']"
proof -
  let ?u = "''please put Buy Milk on my list''"
  let ?s = "init_agent demo_config empty_file"
  have h1: "no_rule_matches (strip (lower ?u))"
    by code_simp
  have h2: "chat_json tool_env (events ?s @ [MemoryQuery ?u 2])
      (\<lparr>role = System,
         content = system_prompt (config ?s)
           (repr_docs tool_env
              (documents (fst (memory_query tool_env ?u 2
                 (append_turn \<lparr>role = User, content = ?u\<rparr> ?s)))))\<rparr>
       # short_term (append_turn \<lparr>role = User, content = ?u\<rparr> ?s)) = Inr decision_text"
    by (simp add: tool_env_def)
  have h3: "safe_parse tool_env decision_text = Some (JObject add_decision)"
    by (simp add: safe_parse_def tool_env_def)
  have h4: "add_decision \<noteq> empty_object"
    by (simp add: add_decision_def empty_object_def)
  have h5: "d_action add_decision = Some ''add_todo''"
    by (simp add: add_decision_def)
  have h6: "''add_todo'' \<noteq> ''none''"
    by simp
  have h7: "d_final_answer add_decision = Some (Some ''Done.'')"
    by (simp add: add_decision_def)
  have sm: "\<not> (get_or (d_save_memory add_decision) False
      \<and> get_or (d_memory_content add_decision) [] \<noteq> [])"
    by (simp add: add_decision_def get_or_def)
  have c1: "fst (process_single_intent tool_env ?u ?s) = Inr ''Observation: Task already exists.''"
    by code_simp
  have c2: "items (todo_json (snd (process_single_intent tool_env ?u ?s)))
       = [\<lparr>task = ''Buy Milk'', done = False\<rparr>]"
    by code_simp
  have c3: "internal_log (snd (process_single_intent tool_env ?u ?s))
       = [''Retrieved memory: []'',
          ''Distances: []'',
          ''Thought: The user wants a task.'',
          ''Tool selected: add_todo'',
          ''Tool input: Buy Milk'',
          ''Tool observation: Task '' @ [CHR 0x27] @ ''Buy Milk'' @ [CHR 0x27] @ '' added.'',
          ''Thought: The user wants a task.'',
          ''Tool selected: add_todo'',
          ''Tool input: Buy Milk'',
          ''Tool observation: Task already exists.'']"
    by code_simp
  from tool_block_twice [OF h1 h2 h3 h4 h5 h6 refl refl]
  obtain ans2 s5 where res: "process_single_intent tool_env ?u ?s
      = (Inr ans2,
         append_turn \<lparr>role = Assistant, content = ans2\<rparr>
           (if get_or (d_save_memory add_decision) False
                 \<and> get_or (d_memory_content add_decision) [] \<noteq> []
            then log_append
                   (''Memory saved by LLM: '' @ get_or (d_memory_content add_decision) [])
                   (add_memory (get_or (d_memory_content add_decision) []) s5)
            else s5))"
    by blast
  from res sm have res': "process_single_intent tool_env ?u ?s
      = (Inr ans2, append_turn \<lparr>role = Assistant, content = ans2\<rparr> s5)"
    by (simp only: if_False)
  from res' c1 have "ans2 = ''Observation: Task already exists.''"
    by simp
  with res' have c0: "\<exists>s5. process_single_intent tool_env ?u ?s
            = (Inr ''Observation: Task already exists.'',
               append_turn
                 \<lparr>role = Assistant, content = ''Observation: Task already exists.''\<rparr> s5)"
    by blast
  from h1 h3 h5 h7 c0 c2 c3 show ?thesis
    by (intro conjI)
qed

section \<open>The conversation window\<close>



lemma short_term_log_append [simp]: "short_term (log_append l s) = short_term s"
  by (simp add: log_append_def)

lemma short_term_add_memory [simp]: "short_term (add_memory t s) = short_term s"
  by (simp add: add_memory_def)

lemma short_term_call_model_plain [simp]:
  "short_term (snd (call_model_plain e ms s)) = short_term s"
  by (simp add: call_model_plain_def)

lemma short_term_call_model_json [simp]:
  "short_term (snd (call_model_json e ms s)) = short_term s"
  by (simp add: call_model_json_def Let_def log_append_def split: sum.splits)

lemma short_term_memory_query [simp]:
  "short_term (snd (memory_query e q k s)) = short_term s"
  by (simp add: memory_query_def Let_def split: option.splits)

lemma short_term_get_current_date [simp]:
  "short_term (snd (get_current_date e s)) = short_term s"
  by (simp add: get_current_date_def)

lemma short_term_search_tool [simp]:
  "short_term (snd (search_tool e q s)) = short_term s"
  by (simp add: search_tool_def)

lemma short_term_add_todo_tool [simp]:
  "short_term (snd (add_todo_tool t s)) = short_term s"
  by (simp add: add_todo_tool_def split: prod.splits)

lemma short_term_complete_todo_tool [simp]:
  "short_term (snd (complete_todo_tool e t s)) = short_term s"
  by (simp add: complete_todo_tool_def split: prod.splits)

lemma short_term_execute_tool [simp]:
  "short_term (snd (execute_tool e a i s)) = short_term s"
  by (simp add: execute_tool_def Let_def split_beta split: option.splits)

lemma short_term_tool_then_synthesis [simp]:
  "short_term (snd (tool_then_synthesis e a i s)) = short_term s"
  by (simp add: tool_then_synthesis_def split_beta)












end
